theory Spec2Isabelle
  imports Main "HOL-Library.Monad_Syntax"
begin

section \<open>JavaScript strings and numbers\<close>

text \<open>
  Strings are \<open>char list\<close>; the model is about ASCII text, where \<open>toUpperCase\<close> and
  \<open>toLowerCase\<close> only move the 26 letters. Numbers that hold row and column indices
  are unbounded \<open>int\<close>: a double represents every integer of magnitude below
  \<open>2 ^ 53\<close> exactly, and the model speaks about that range.
\<close>

definition isDigit :: "char \<Rightarrow> bool" where
  "isDigit c = (48 \<le> (of_char c :: nat) \<and> (of_char c :: nat) \<le> 57)"

definition isUpper :: "char \<Rightarrow> bool" where
  "isUpper c = (65 \<le> (of_char c :: nat) \<and> (of_char c :: nat) \<le> 90)"

definition isLower :: "char \<Rightarrow> bool" where
  "isLower c = (97 \<le> (of_char c :: nat) \<and> (of_char c :: nat) \<le> 122)"

text \<open>The class \<open>[a-z]\<close> under the \<open>i\<close> flag.\<close>

definition isLetter :: "char \<Rightarrow> bool" where
  "isLetter c = (isUpper c \<or> isLower c)"

text \<open>The class \<open>\w\<close>, which decides where \<open>\b\<close> holds.\<close>

definition isWordChar :: "char \<Rightarrow> bool" where
  "isWordChar c = (isLetter c \<or> isDigit c \<or> c = CHR ''_'')"

definition toUpperChar :: "char \<Rightarrow> char" where
  "toUpperChar c = (if isLower c then char_of ((of_char c :: nat) - 32) else c)"

definition toLowerChar :: "char \<Rightarrow> char" where
  "toLowerChar c = (if isUpper c then char_of ((of_char c :: nat) + 32) else c)"

definition toUpperCase :: "string \<Rightarrow> string" where
  "toUpperCase s = map toUpperChar s"

definition toLowerCase :: "string \<Rightarrow> string" where
  "toLowerCase s = map toLowerChar s"

text \<open>\<open>Number(text)\<close> on a text that \<open>\d+\<close> matched.\<close>

definition Number_of_digits :: "string \<Rightarrow> int" where
  "Number_of_digits ds = foldl (\<lambda>acc d. acc * 10 + (of_char d - 48)) 0 ds"

text \<open>\<open>String(n)\<close> on an integer.\<close>

fun digits_of_nat :: "nat \<Rightarrow> string" where
  "digits_of_nat n =
     (if n < 10 then [char_of (48 + n)]
      else digits_of_nat (n div 10) @ [char_of (48 + n mod 10)])"

declare digits_of_nat.simps [simp del]

definition String_of_int :: "int \<Rightarrow> string" where
  "String_of_int n = (if n < 0 then CHR ''-'' # digits_of_nat (nat (- n)) else digits_of_nat (nat n))"

text \<open>\<open>new Set(array)\<close> and \<open>[...set]\<close>: a set keeps the first insertion of each item.\<close>

fun newSet :: "'a list \<Rightarrow> 'a list" where
  "newSet [] = []"
| "newSet (x # xs) = x # filter (\<lambda>y. y \<noteq> x) (newSet xs)"

section \<open>Regular expressions of util.js\<close>

text \<open>
  A position in a text is the part before it and the part after it; \<open>\b\<close> looks at
  the character on each side. A matcher takes the text before the position and the
  text after it and returns the matched prefix of the latter, if the expression
  matches there.
\<close>

definition lastChar :: "string \<Rightarrow> char option" where
  "lastChar s = (if s = [] then None else Some (last s))"

definition firstChar :: "string \<Rightarrow> char option" where
  "firstChar s = (case s of [] \<Rightarrow> None | c # _ \<Rightarrow> Some c)"

definition isWordOpt :: "char option \<Rightarrow> bool" where
  "isWordOpt c = (case c of None \<Rightarrow> False | Some x \<Rightarrow> isWordChar x)"

definition wordBoundary :: "char option \<Rightarrow> char option \<Rightarrow> bool" where
  "wordBoundary pre post = (isWordOpt pre \<noteq> isWordOpt post)"

type_synonym matcher = "string \<Rightarrow> string \<Rightarrow> string option"

text \<open>
  \<open>[a-z]+\d+\<close> under the \<open>i\<close> flag at the head of a text: the letters, the
  digits and the rest. Both quantifiers are greedy, and giving back a letter or a
  digit never helps what follows (a digit, then something that is not a digit), so
  the longest runs are the only candidates.
\<close>

definition lettersDigits :: "string \<Rightarrow> (string \<times> string \<times> string) option" where
  "lettersDigits s =
     (let ls = takeWhile isLetter s; r1 = dropWhile isLetter s;
          ds = takeWhile isDigit r1; r2 = dropWhile isDigit r1
      in if ls \<noteq> [] \<and> ds \<noteq> [] then Some (ls, ds, r2) else None)"

text \<open>\<open>REF_REGEXP = /\b([a-z]+)(\d+)\b/i\<close> at a position.\<close>

definition REF_REGEXP :: matcher where
  "REF_REGEXP pre s =
     (case lettersDigits s of
        None \<Rightarrow> None
      | Some (ls, ds, r2) \<Rightarrow>
          if wordBoundary (lastChar pre) (firstChar s) \<and>
             wordBoundary (lastChar ds) (firstChar r2)
          then Some (ls @ ds) else None)"

text \<open>\<open>REF_WITH_ANCHORS_REGEXP = /^([a-z]+)(\d+)$/i\<close>: the two groups.\<close>

definition REF_WITH_ANCHORS_REGEXP :: "string \<Rightarrow> (string \<times> string) option" where
  "REF_WITH_ANCHORS_REGEXP s =
     (case lettersDigits s of
        None \<Rightarrow> None
      | Some (ls, ds, r2) \<Rightarrow> if r2 = [] then Some (ls, ds) else None)"

text \<open>
  \<open>RANGE_REGEXP = /\b([a-z]+\d+):([a-z]+\d+)\b/i\<close> at a position: the two
  groups.
\<close>

definition RANGE_REGEXP_groups :: "string \<Rightarrow> string \<Rightarrow> (string \<times> string) option" where
  "RANGE_REGEXP_groups pre s =
     (case lettersDigits s of
        None \<Rightarrow> None
      | Some (ls1, ds1, r1) \<Rightarrow>
          (case r1 of
             [] \<Rightarrow> None
           | c # r2 \<Rightarrow>
               if c \<noteq> CHR '':'' then None
               else (case lettersDigits r2 of
                       None \<Rightarrow> None
                     | Some (ls2, ds2, r3) \<Rightarrow>
                         if wordBoundary (lastChar pre) (firstChar s) \<and>
                            wordBoundary (lastChar ds2) (firstChar r3)
                         then Some (ls1 @ ds1, ls2 @ ds2) else None)))"

definition RANGE_REGEXP :: matcher where
  "RANGE_REGEXP pre s =
     map_option (\<lambda>(g1, g2). g1 @ CHR '':'' # g2) (RANGE_REGEXP_groups pre s)"

text \<open>\<open>FORMULA_REGEXP = /^=(.*)$/\<close>: the group. The dot matches no line terminator.\<close>

definition isLineTerminator :: "char \<Rightarrow> bool" where
  "isLineTerminator c = ((of_char c :: nat) = 10 \<or> (of_char c :: nat) = 13)"

definition FORMULA_REGEXP :: "string \<Rightarrow> string option" where
  "FORMULA_REGEXP s =
     (case s of
        [] \<Rightarrow> None
      | c # cs \<Rightarrow> if c = CHR ''='' \<and> \<not> (\<exists>x \<in> set cs. isLineTerminator x) then Some cs else None)"

text \<open>
  \<open>text.match(regexp)\<close> without the \<open>g\<close> flag: the first position, from the
  left, where the expression matches.
\<close>

fun firstMatch :: "(string \<Rightarrow> string \<Rightarrow> 'a option) \<Rightarrow> string \<Rightarrow> string \<Rightarrow> 'a option" where
  "firstMatch m pre [] = m pre []"
| "firstMatch m pre (c # cs) =
     (case m pre (c # cs) of
        Some r \<Rightarrow> Some r
      | None \<Rightarrow> firstMatch m (pre @ [c]) cs)"

text \<open>
  \<open>textScan(text, regexp)\<close>: \<open>matchAll\<close> with the \<open>g\<close> flag added, each match
  mapped to its whole text. The search resumes where the last match ended (one
  character further after an empty match).
\<close>

function matchAll :: "matcher \<Rightarrow> string \<Rightarrow> string \<Rightarrow> string list" where
  "matchAll m pre [] = (case m pre [] of Some r \<Rightarrow> [r] | None \<Rightarrow> [])"
| "matchAll m pre (c # cs) =
     (case m pre (c # cs) of
        Some r \<Rightarrow> r # matchAll m (pre @ c # take (length r - 1) cs) (drop (length r - 1) cs)
      | None \<Rightarrow> matchAll m (pre @ [c]) cs)"
  by pat_completeness auto
termination
  by (relation "measure (\<lambda>(m, pre, s). length s)") auto

definition textScan :: "string \<Rightarrow> matcher \<Rightarrow> string list" where
  "textScan text regexp = matchAll regexp [] text"

text \<open>
  The replacement text of \<open>String.prototype.replace\<close>: \<open>$$\<close>, \<open>$&\<close>,
  \<open>$`\<close> and \<open>$'\<close> are expanded; the expressions replaced here have no group, so
  \<open>$1\<close> and \<open>$<name>\<close> stay as they are.
\<close>

fun getSubstitution :: "string \<Rightarrow> string \<Rightarrow> string \<Rightarrow> string \<Rightarrow> string" where
  "getSubstitution matched pre post [] = []"
| "getSubstitution matched pre post [c] = [c]"
| "getSubstitution matched pre post (c # d # cs) =
     (if c = CHR ''$'' \<and> d = CHR ''$'' then CHR ''$'' # getSubstitution matched pre post cs
      else if c = CHR ''$'' \<and> d = CHR ''&'' then matched @ getSubstitution matched pre post cs
      else if c = CHR ''$'' \<and> d = CHR 0x60 then pre @ getSubstitution matched pre post cs
      else if c = CHR ''$'' \<and> d = CHR 0x27 then post @ getSubstitution matched pre post cs
      else c # getSubstitution matched pre post (d # cs))"

text \<open>
  \<open>text.replace(regexp, replacement)\<close> with the \<open>g\<close> flag, and
  \<open>text.replaceAll(pattern, replacement)\<close>: every match, from the left, is
  replaced.
\<close>

function replaceAll :: "matcher \<Rightarrow> string \<Rightarrow> string \<Rightarrow> string \<Rightarrow> string" where
  "replaceAll m replacement pre [] =
     (case m pre [] of Some r \<Rightarrow> getSubstitution r pre [] replacement | None \<Rightarrow> [])"
| "replaceAll m replacement pre (c # cs) =
     (case m pre (c # cs) of
        Some r \<Rightarrow>
          getSubstitution r pre (drop (length r) (c # cs)) replacement @
          (if r = [] then c # replaceAll m replacement (pre @ [c]) cs
           else replaceAll m replacement (pre @ c # take (length r - 1) cs)
                  (drop (length r - 1) cs))
      | None \<Rightarrow> c # replaceAll m replacement (pre @ [c]) cs)"
  by pat_completeness auto
termination
  by (relation "measure (\<lambda>(m, replacement, pre, s). length s)") auto

text \<open>
  \<open>new RegExp(`\\b${text}\\b`, flags)\<close> for a text of letters, digits and colons
  (what the callers pass): the text itself between two word boundaries, compared
  letter by letter, or up to letter case under the \<open>i\<close> flag.
\<close>

definition RegExp_word :: "string \<Rightarrow> bool \<Rightarrow> matcher" where
  "RegExp_word pattern ignoreCase pre s =
     (let r = take (length pattern) s
      in if (if ignoreCase then toUpperCase r = toUpperCase pattern else r = pattern) \<and>
            wordBoundary (lastChar pre) (firstChar s) \<and>
            wordBoundary (lastChar (pre @ r)) (firstChar (drop (length pattern) s))
         then Some r else None)"

text \<open>
  \<open>new RegExp(`\\b(?<!:)${text}(?!:)\\b`, "g")\<close>: as before, and no colon on
  either side.
\<close>

definition RegExp_word_noColon :: "string \<Rightarrow> matcher" where
  "RegExp_word_noColon pattern pre s =
     (if lastChar pre \<noteq> Some CHR '':'' \<and>
         firstChar (drop (length pattern) s) \<noteq> Some CHR '':''
      then RegExp_word pattern False pre s else None)"

text \<open>The pattern of \<open>replaceAll(text, _)\<close>: the text itself, anywhere.\<close>

definition literal :: "string \<Rightarrow> matcher" where
  "literal pattern pre s =
     (if take (length pattern) s = pattern then Some pattern else None)"

section \<open>Reference algebra (util.js)\<close>

definition ALPHABET_LENGTH :: int where
  "ALPHABET_LENGTH = of_char CHR ''Z'' - of_char CHR ''A'' + 1"

text \<open>\<open>_colIndexFromSingleLetter\<close>: converts 'A' to 1, 'B' to 2 ... 'Z' to 26.\<close>

definition colIndexFromSingleLetter :: "char \<Rightarrow> int" where
  "colIndexFromSingleLetter colSingleRef = of_char colSingleRef - of_char CHR ''A'' + 1"

text \<open>
  \<open>colIndexFromLabel\<close>: the \<open>reduce\<close> over \<open>colRef.split("")\<close> with the index
  \<open>i\<close> of each letter; the accumulator starts at 0.
\<close>

definition colIndexFromLabel :: "string \<Rightarrow> int" where
  "colIndexFromLabel colRef =
     foldl (\<lambda>acc (i, letter).
              acc + colIndexFromSingleLetter letter * ALPHABET_LENGTH ^ (length colRef - i - 1))
           0 (enumerate 0 colRef)"

text \<open>\<open>_colSingleLetter\<close>: converts 1 to 'A', 2 to 'B' ... 26 to 'Z'.\<close>

definition colSingleLetter :: "int \<Rightarrow> char" where
  "colSingleLetter colIndex = char_of (colIndex - 1 + of_char CHR ''A'')"

text \<open>
  The \<open>while (colIndex >= 0)\<close> loop of \<open>colAsLabel\<close>. Inside the loop
  \<open>colIndex\<close> is not negative, so \<open>%\<close> and \<open>Math.trunc(_ / _)\<close> are \<open>mod\<close> and
  \<open>div\<close>.
\<close>

function colAsLabel_loop :: "int \<Rightarrow> string \<Rightarrow> string" where
  "colAsLabel_loop colIndex colRef =
     (if colIndex \<ge> 0
      then colAsLabel_loop (colIndex div ALPHABET_LENGTH - 1)
             (colSingleLetter (colIndex mod ALPHABET_LENGTH + 1) # colRef)
      else colRef)"
  by pat_completeness auto
termination
  by (relation "measure (\<lambda>(colIndex, colRef). nat (colIndex + 1))")
     (auto simp: ALPHABET_LENGTH_def zdiv_mono1 intro: order.strict_trans1)

declare colAsLabel_loop.simps [simp del]

text \<open>\<open>colAsLabel\<close> on a number (a string argument is returned as it is).\<close>

definition colAsLabel :: "int \<Rightarrow> string" where
  "colAsLabel colIndexOrLabel = colAsLabel_loop (colIndexOrLabel - 1) []"

record coords =
  row :: int
  col :: int
  labelCol :: string

text \<open>
  \<open>_rowColFromRef\<close>: \<open>match\<close> is \<open>null\<close> on a text that is not letters followed
  by digits, and reading \<open>match[1]\<close> then throws; \<open>None\<close> is that exception.
\<close>

definition rowColFromRef :: "string \<Rightarrow> (int \<times> int) option" where
  "rowColFromRef ref =
     (case REF_WITH_ANCHORS_REGEXP (toUpperCase ref) of
        None \<Rightarrow> None
      | Some (g1, g2) \<Rightarrow> Some (Number_of_digits g2, colIndexFromLabel g1))"

text \<open>\<open>asCoords\<close> on an array \<open>[row, col]\<close> of two numbers, and on a reference text.\<close>

definition asCoords_array :: "int \<Rightarrow> int \<Rightarrow> coords" where
  "asCoords_array r c = \<lparr>row = r, col = c, labelCol = colAsLabel c\<rparr>"

definition asCoords :: "string \<Rightarrow> coords option" where
  "asCoords refOrCoords =
     (case rowColFromRef refOrCoords of
        None \<Rightarrow> None
      | Some (r, c) \<Rightarrow> Some \<lparr>row = r, col = c, labelCol = colAsLabel c\<rparr>)"

text \<open>\<open>asRef\<close> on an array \<open>[row, col]\<close> of two numbers, and on a reference text.\<close>

definition asRef_array :: "int \<Rightarrow> int \<Rightarrow> string" where
  "asRef_array r c =
     (let cs = asCoords_array r c in colAsLabel (col cs) @ String_of_int (row cs))"

definition asRef :: "string \<Rightarrow> string option" where
  "asRef refOrCoords =
     (case asCoords refOrCoords of
        None \<Rightarrow> None
      | Some cs \<Rightarrow> Some (colAsLabel (col cs) @ String_of_int (row cs)))"

text \<open>\<open>sequence(number)\<close> is \<open>[0, 1, ..., number - 1]\<close>.\<close>

definition sequenceMap :: "int \<Rightarrow> (int \<Rightarrow> 'a) \<Rightarrow> 'a list" where
  "sequenceMap number fn = map fn [0 .. number - 1]"

text \<open>
  \<open>expandRange\<close>: the rows of the range, each a list of references. \<open>None\<close> is the
  exception of reading \<open>match[1]\<close> when the text holds no range.
\<close>

definition expandRange :: "string \<Rightarrow> string list list option" where
  "expandRange rng =
     (case firstMatch RANGE_REGEXP_groups [] rng of
        None \<Rightarrow> None
      | Some (g1, g2) \<Rightarrow>
          (case (asCoords g1, asCoords g2) of
             (Some topLeftCoords, Some bottomRightCoords) \<Rightarrow>
               if row bottomRightCoords < row topLeftCoords \<or>
                  col bottomRightCoords < col topLeftCoords
               then Some []
               else Some (sequenceMap (row bottomRightCoords - row topLeftCoords + 1)
                      (\<lambda>rowIndex.
                         sequenceMap (col bottomRightCoords - col topLeftCoords + 1)
                           (\<lambda>colIndex.
                              asRef_array (row topLeftCoords + rowIndex)
                                          (col topLeftCoords + colIndex))))
           | _ \<Rightarrow> None))"

text \<open>
  \<open>newRefForCopy\<close>: the reference moved by the distance from source to target, or
  the placeholder.
\<close>

definition newRefForCopy :: "string \<Rightarrow> string \<Rightarrow> string \<Rightarrow> string option" where
  "newRefForCopy ref source target =
     (case (asCoords ref, asCoords source, asCoords target) of
        (Some refCoords, Some sourceCoords, Some targetCoords) \<Rightarrow>
          (let newRow = row refCoords + (row targetCoords - row sourceCoords);
               newCol = col refCoords + (col targetCoords - col sourceCoords)
           in if newRow < 1 \<or> newCol < 1 then Some ''[invalid ref]''
              else Some (asRef_array newRow newCol))
      | _ \<Rightarrow> None)"

section \<open>Formula model (util.js)\<close>

text \<open>\<open>isFormula\<close> and \<open>rawFormula\<close> on a string.\<close>

definition isFormula_string :: "string \<Rightarrow> bool" where
  "isFormula_string v = (FORMULA_REGEXP v \<noteq> None)"

definition rawFormula :: "string \<Rightarrow> string option" where
  "rawFormula formula = FORMULA_REGEXP formula"

definition findRefsInFormula :: "string \<Rightarrow> string list" where
  "findRefsInFormula formula = newSet (textScan (toUpperCase formula) REF_REGEXP)"

text \<open>
  \<open>Object.entries(replacements)\<close> lists the keys in the order of their first
  insertion (no key is an array index here: each starts with a letter); an
  object built by assigning in order is the list of pairs, a later value for the
  same key taking the place of the earlier one.
\<close>

definition templateReplace :: "string \<Rightarrow> (string \<times> string) list \<Rightarrow> string" where
  "templateReplace template replacements =
     foldl (\<lambda>acc (ref, v). replaceAll (RegExp_word ref True) v [] acc) template replacements"

definition templateReplaceForCopy :: "string \<Rightarrow> (string \<times> string) list \<Rightarrow> string" where
  "templateReplaceForCopy template replacements =
     toUpperCase
       (foldl (\<lambda>acc (ref, v). replaceAll (RegExp_word (toUpperCase ref) False) (toLowerCase v) [] acc)
              (toUpperCase template) replacements)"

definition templateReplaceForMove :: "string \<Rightarrow> (string \<times> string) list \<Rightarrow> string" where
  "templateReplaceForMove template replacements =
     toUpperCase
       (foldl (\<lambda>acc (ref, v).
                 replaceAll (RegExp_word_noColon (toUpperCase ref)) (toLowerCase v) [] acc)
              (toUpperCase template) replacements)"

text \<open>
  \<open>JSON.stringify(rows).replaceAll('"', "")\<close> on the rows of a range: the
  references hold no character that JSON escapes.
\<close>

fun joinComma :: "string list \<Rightarrow> string" where
  "joinComma [] = []"
| "joinComma [x] = x"
| "joinComma (x # y # ys) = x @ '','' @ joinComma (y # ys)"

definition stringifyRows :: "string list list \<Rightarrow> string" where
  "stringifyRows rows =
     ''['' @ joinComma (map (\<lambda>r. ''['' @ joinComma r @ '']'') rows) @ '']''"

text \<open>\<open>expandRanges\<close>: every range of the formula replaced by its rows.\<close>

fun expandRanges_loop :: "string list \<Rightarrow> string \<Rightarrow> string option" where
  "expandRanges_loop [] acc = Some acc"
| "expandRanges_loop (rng # ranges) acc =
     (case expandRange rng of
        None \<Rightarrow> None
      | Some rows \<Rightarrow> expandRanges_loop ranges (replaceAll (literal rng) (stringifyRows rows) [] acc))"

definition expandRanges :: "string \<Rightarrow> string option" where
  "expandRanges formula = expandRanges_loop (newSet (textScan formula RANGE_REGEXP)) formula"

section \<open>Cells and sheets (the classes \<open>Cell\<close> and \<open>Sheet\<close>)\<close>

text \<open>
  The values a cell holds. Numbers are integers; \<open>NaN\<close>, fractions and objects
  are outside the model. On these values \<open>!==\<close> is \<open>\<noteq>\<close>.
\<close>

datatype jsval = Undefined | Null | Num int | Str string

text \<open>\<open>String(v)\<close>, the text a value is replaced by in a formula.\<close>

fun ToString :: "jsval \<Rightarrow> string" where
  "ToString Undefined = ''undefined''"
| "ToString Null = ''null''"
| "ToString (Num n) = String_of_int n"
| "ToString (Str s) = s"

text \<open>
  What the model takes from the JavaScript runtime: \<open>eval\<close> on the text of a
  formula, with the functions \<open>SUM\<close>, \<open>COUNT\<close>, \<open>AVG\<close>, \<open>MAX\<close>, \<open>MIN\<close>,
  \<open>ROWS\<close> and \<open>COLS\<close> of \<open>_evaluateValue\<close> in scope (\<open>None\<close> when it throws),
  and whether \<open>Number(text)\<close> is \<open>NaN\<close>.
\<close>

record runtime =
  js_eval :: "string \<Rightarrow> jsval option"
  Number_is_NaN :: "string \<Rightarrow> bool"

text \<open>
  A cell object. The field \<open>sheet\<close> is left out: the model has one sheet at a
  time. A property that was never assigned reads \<open>undefined\<close>.
\<close>

record cell =
  ref :: string
  cell_value :: jsval
  subjects :: "string list"
  observers :: "string list"
  modified :: bool
  evaluated :: bool
  invalid :: bool
  errorMessage :: jsval
  evaluatedValue :: jsval

text \<open>
  A sheet: the cell objects by address, and the object \<open>this.cells\<close> that maps a
  reference to its cell. A cell under construction is in the store and not yet in
  \<open>cells\<close>. A set of references is the list of its items in insertion order.
  The field \<open>evaluations\<close> is not in the source: it lists, in order, the cells
  whose \<open>_evaluateValue\<close> ran past its guard on \<open>evaluated\<close>.
\<close>

record sheet =
  heap :: "cell list"
  cells :: "(string \<times> nat) list"
  evaluations :: "string list"

definition update_cell :: "nat \<Rightarrow> (cell \<Rightarrow> cell) \<Rightarrow> sheet \<Rightarrow> sheet" where
  "update_cell a f s = s\<lparr>heap := (heap s)[a := f (heap s ! a)]\<rparr>"

definition setAdd :: "'a \<Rightarrow> 'a list \<Rightarrow> 'a list" where
  "setAdd x xs = (if x \<in> set xs then xs else xs @ [x])"

definition setDelete :: "'a \<Rightarrow> 'a list \<Rightarrow> 'a list" where
  "setDelete x xs = filter (\<lambda>y. y \<noteq> x) xs"

definition setAppend :: "'a list \<Rightarrow> 'a list \<Rightarrow> 'a list" where
  "setAppend targetSet setOrArrayToAppend = foldl (\<lambda>acc item. setAdd item acc) targetSet setOrArrayToAppend"

definition setDiff :: "'a list \<Rightarrow> 'a list \<Rightarrow> 'a list" where
  "setDiff oneSet anotherSet = filter (\<lambda>item. item \<notin> set anotherSet) oneSet"

definition setIntersect :: "'a list \<Rightarrow> 'a list \<Rightarrow> 'a list" where
  "setIntersect oneSet anotherSet = filter (\<lambda>item. item \<in> set anotherSet) oneSet"

text \<open>\<open>isFormula\<close> and \<open>isEmpty\<close> on a value; \<open>trim\<close> removes white space.\<close>

definition isFormula :: "jsval \<Rightarrow> bool" where
  "isFormula v = (case v of Str s \<Rightarrow> isFormula_string s | _ \<Rightarrow> False)"

definition isWhiteSpace :: "char \<Rightarrow> bool" where
  "isWhiteSpace c = ((of_char c :: nat) \<in> {9, 10, 11, 12, 13, 32, 160})"

definition isEmpty :: "jsval \<Rightarrow> bool" where
  "isEmpty v = (case v of Undefined \<Rightarrow> True | Null \<Rightarrow> True
                | Str s \<Rightarrow> (\<forall>c \<in> set s. isWhiteSpace c) | _ \<Rightarrow> False)"

text \<open>
  \<open>Sheet.findCell\<close>: \<open>None\<close> when \<open>asRef\<close> throws, \<open>Some None\<close> when the sheet
  has no such cell (\<open>undefined\<close>).
\<close>

definition findCell :: "sheet \<Rightarrow> string \<Rightarrow> nat option option" where
  "findCell s refOrCoords =
     (case asRef refOrCoords of
        None \<Rightarrow> None
      | Some r \<Rightarrow> Some (map_of (cells s) r))"

text \<open>
  A use of \<open>findCell(ref)\<close> that reads a property of the result: \<open>undefined\<close>
  throws there.
\<close>

definition findCell_defined :: "sheet \<Rightarrow> string \<Rightarrow> nat option" where
  "findCell_defined s refOrCoords =
     (case findCell s refOrCoords of Some (Some a) \<Rightarrow> Some a | _ \<Rightarrow> None)"

text \<open>\<open>this.cells[ref] = cell\<close>.\<close>

fun assign_cells :: "string \<Rightarrow> nat \<Rightarrow> (string \<times> nat) list \<Rightarrow> (string \<times> nat) list" where
  "assign_cells r a [] = [(r, a)]"
| "assign_cells r a ((k, b) # kvs) =
     (if k = r then (k, a) # kvs else (k, b) # assign_cells r a kvs)"

text \<open>
  The constructor of \<open>Cell\<close> up to its last line, \<open>this.setValue(value)\<close>: a new
  object with the reference \<open>r\<close>.
\<close>

definition init_cell :: "string \<Rightarrow> cell" where
  "init_cell r =
     \<lparr>ref = r, cell_value = Undefined, subjects = [], observers = [],
      modified = False, evaluated = False, invalid = False,
      errorMessage = Undefined, evaluatedValue = Undefined\<rparr>"

definition allocate :: "string \<Rightarrow> sheet \<Rightarrow> sheet \<times> nat" where
  "allocate r s = (s\<lparr>heap := heap s @ [init_cell r]\<rparr>, length (heap s))"

text \<open>
  \<open>Sheet.findOrCreateCell(ref)\<close>, as every caller uses it: with no
  \<open>valueIfNew\<close>. The constructor then calls \<open>setValue(undefined)\<close> on a cell
  whose value is \<open>undefined\<close>, which does nothing.
\<close>

definition findOrCreateCell :: "sheet \<Rightarrow> string \<Rightarrow> (sheet \<times> nat) option" where
  "findOrCreateCell s refOrCoords =
     (case asRef refOrCoords of
        None \<Rightarrow> None
      | Some r \<Rightarrow>
          (case map_of (cells s) r of
             Some a \<Rightarrow> Some (s, a)
           | None \<Rightarrow>
               (let (s1, a) = allocate r s
                in Some (s1\<lparr>cells := assign_cells r a (cells s1)\<rparr>, a))))"

definition registerObserver :: "nat \<Rightarrow> string \<Rightarrow> sheet \<Rightarrow> sheet" where
  "registerObserver a observer s = update_cell a (\<lambda>c. c\<lparr>observers := setAdd observer (observers c)\<rparr>) s"

definition unregisterObserver :: "nat \<Rightarrow> string \<Rightarrow> sheet \<Rightarrow> sheet" where
  "unregisterObserver a observer s = update_cell a (\<lambda>c. c\<lparr>observers := setDelete observer (observers c)\<rparr>) s"

text \<open>
  \<open>Cell._hasCircularDependency(subjects, visited)\<close> on the cell at address
  \<open>this\<close>. \<open>hasCircularDependency_some\<close> is the \<open>some\<close> over the subjects; the
  array \<open>visited\<close> and the sheet (where \<open>findOrCreateCell\<close> creates cells) are
  passed along and returned. \<open>None\<close>: an exception escapes.
\<close>

partial_function (option) hasCircularDependency_some ::
  "nat \<Rightarrow> string list \<Rightarrow> sheet \<Rightarrow> string list \<Rightarrow> (bool \<times> string list \<times> sheet) option" where
  "hasCircularDependency_some this refs s visited =
     (case refs of
        [] \<Rightarrow> Some (False, visited, s)
      | r # rest \<Rightarrow>
          if r \<in> set visited then hasCircularDependency_some this rest s visited
          else
            (case findOrCreateCell s r of
               None \<Rightarrow> None
             | Some (s1, subject) \<Rightarrow>
                 (if ref (heap s1 ! this) \<in> set (subjects (heap s1 ! subject))
                  then Some (True, visited @ [r], s1)
                  else
                    do {
                      (found, visited1, s2) \<leftarrow>
                        hasCircularDependency_some this (subjects (heap s1 ! subject)) s1
                          (visited @ [r]);
                      if found then Some (True, visited1, s2)
                      else hasCircularDependency_some this rest s2 visited1
                    })))"

declare hasCircularDependency_some.simps [code]

definition hasCircularDependency ::
  "nat \<Rightarrow> string list \<Rightarrow> sheet \<Rightarrow> string list \<Rightarrow> (bool \<times> string list \<times> sheet) option" where
  "hasCircularDependency this subjs s visited =
     (if ref (heap s ! this) \<in> set subjs then Some (True, visited, s)
      else hasCircularDependency_some this subjs s visited)"

text \<open>
  \<open>Cell.descendantObservers(visited)\<close>. \<open>descendantObservers_flatMap\<close> is the
  \<open>flatMap\<close> over the observers: the items found and the array \<open>visited\<close>.
\<close>

partial_function (option) descendantObservers_flatMap ::
  "sheet \<Rightarrow> string list \<Rightarrow> string list \<Rightarrow> (string list \<times> string list) option" where
  "descendantObservers_flatMap s refs visited =
     (case refs of
        [] \<Rightarrow> Some ([], visited)
      | r # rest \<Rightarrow>
          if r \<in> set visited then descendantObservers_flatMap s rest visited
          else
            (case findCell_defined s r of
               None \<Rightarrow> None
             | Some c \<Rightarrow>
                 do {
                   (inner, visited1) \<leftarrow>
                     descendantObservers_flatMap s (observers (heap s ! c)) (visited @ [r]);
                   (others, visited2) \<leftarrow> descendantObservers_flatMap s rest visited1;
                   Some (setAppend [ref (heap s ! c)] inner @ others, visited2)
                 }))"

declare descendantObservers_flatMap.simps [code]

definition descendantObservers :: "sheet \<Rightarrow> nat \<Rightarrow> string list \<Rightarrow> (string list \<times> string list) option" where
  "descendantObservers s this visited =
     (case descendantObservers_flatMap s (observers (heap s ! this)) visited of
        None \<Rightarrow> None
      | Some (inner, visited1) \<Rightarrow> Some (setAppend [ref (heap s ! this)] inner, visited1))"

text \<open>\<open>Cell._valueForFormulaCalculation(defaultValue)\<close>.\<close>

definition valueForFormulaCalculation :: "runtime \<Rightarrow> cell \<Rightarrow> jsval \<Rightarrow> jsval" where
  "valueForFormulaCalculation js c defaultValue =
     (if isEmpty (cell_value c) then defaultValue
      else if isFormula (cell_value c) then evaluatedValue c
      else if (case cell_value c of Str t \<Rightarrow> Number_is_NaN js t | _ \<Rightarrow> False) then defaultValue
      else evaluatedValue c)"

text \<open>
  \<open>Cell._parseFormula()\<close>: \<open>Inl message\<close> is the exception
  \<open>InvalidRefInFormula\<close>, \<open>None\<close> any other exception. \<open>subjectValues\<close> is the
  \<open>reduce\<close> over the subjects.
\<close>

fun subjectValues :: "runtime \<Rightarrow> sheet \<Rightarrow> string list \<Rightarrow> (string + (string \<times> jsval) list) option" where
  "subjectValues js s [] = Some (Inr [])"
| "subjectValues js s (r # refs) =
     (case findCell_defined s r of
        None \<Rightarrow> None
      | Some c \<Rightarrow>
          if invalid (heap s ! c) then Some (Inl (''Invalid ref ['' @ r @ '']''))
          else (case subjectValues js s refs of
                  None \<Rightarrow> None
                | Some (Inl e) \<Rightarrow> Some (Inl e)
                | Some (Inr acc) \<Rightarrow>
                    Some (Inr ((r, valueForFormulaCalculation js (heap s ! c) (Num 0)) # acc))))"

definition parseFormula :: "runtime \<Rightarrow> sheet \<Rightarrow> nat \<Rightarrow> (string + string option) option" where
  "parseFormula js s this =
     (case subjectValues js s (subjects (heap s ! this)) of
        None \<Rightarrow> None
      | Some (Inl e) \<Rightarrow> Some (Inl e)
      | Some (Inr vals) \<Rightarrow>
          (case cell_value (heap s ! this) of
             Str v \<Rightarrow>
               (case expandRanges v of
                  None \<Rightarrow> None
                | Some expanded \<Rightarrow>
                    Some (Inr (rawFormula
                      (templateReplace expanded (map (\<lambda>(r, x). (r, ToString x)) vals)))))
           | _ \<Rightarrow> None))"

text \<open>
  \<open>eval(parsedFormula)\<close> inside \<open>try\<close>: \<open>eval\<close> returns a value that is not a
  string as it is, so \<open>undefined\<close> (no formula text left) evaluates to
  \<open>undefined\<close>.
\<close>

definition eval_parsed :: "runtime \<Rightarrow> string option \<Rightarrow> jsval option" where
  "eval_parsed js parsedFormula =
     (case parsedFormula of None \<Rightarrow> Some Undefined | Some t \<Rightarrow> js_eval js t)"

text \<open>
  The part of \<open>Cell._evaluateValue\<close> between the guard on \<open>evaluated\<close> and the
  comparison with the previous value: the cell is marked evaluated and its value
  computed.
\<close>

definition compute_value :: "runtime \<Rightarrow> nat \<Rightarrow> sheet \<Rightarrow> sheet option" where
  "compute_value js this s =
     (let s1 = update_cell this (\<lambda>c. c\<lparr>evaluated := True, invalid := False, errorMessage := Null\<rparr>) s
      in if isFormula (cell_value (heap s1 ! this))
         then (case parseFormula js s1 this of
                 None \<Rightarrow> None
               | Some (Inl message) \<Rightarrow>
                   Some (update_cell this
                     (\<lambda>c. c\<lparr>evaluatedValue := Null, invalid := True, errorMessage := Str message\<rparr>) s1)
               | Some (Inr parsedFormula) \<Rightarrow>
                   (case eval_parsed js parsedFormula of
                      Some v \<Rightarrow> Some (update_cell this (\<lambda>c. c\<lparr>evaluatedValue := v\<rparr>) s1)
                    | None \<Rightarrow>
                        Some (update_cell this
                          (\<lambda>c. c\<lparr>evaluatedValue := Null, invalid := True,
                                 errorMessage := Str ''Invalid formula''\<rparr>) s1)))
         else Some (update_cell this (\<lambda>c. c\<lparr>evaluatedValue := cell_value c\<rparr>) s1))"

text \<open>
  The test of \<open>_notifyObservers\<close> on one observer: the subjects of the observer
  that are in the frontier and not yet evaluated. \<open>None\<close>: a reference names no
  cell, and reading \<open>evaluated\<close> throws.
\<close>

fun nonEvaluated :: "sheet \<Rightarrow> string list \<Rightarrow> string list option" where
  "nonEvaluated s [] = Some []"
| "nonEvaluated s (r # refs) =
     (case findCell_defined s r of
        None \<Rightarrow> None
      | Some c \<Rightarrow>
          (case nonEvaluated s refs of
             None \<Rightarrow> None
           | Some rest \<Rightarrow> Some (if \<not> evaluated (heap s ! c) then r # rest else rest)))"

text \<open>
  \<open>Cell._evaluateValue\<close> and \<open>Cell._notifyObservers\<close>, which call each other,
  as one function of the call. \<open>NotifyObservers this refs\<close> is the \<open>forEach\<close> of
  \<open>_notifyObservers\<close> on the cell \<open>this\<close> with the observers \<open>refs\<close> still to
  visit; evaluation changes no set of observers, so the observers are those at the
  start of the loop. \<open>None\<close>: an exception escapes.
\<close>

datatype call = EvaluateValue nat | NotifyObservers nat "string list"

partial_function (option) propagate ::
  "runtime \<Rightarrow> string list \<Rightarrow> call \<Rightarrow> sheet \<Rightarrow> sheet option" where
  "propagate js updatedCellDescendantObservers c s =
     (case c of
        EvaluateValue this \<Rightarrow>
          if evaluated (heap s ! this) then Some s
          else
            (case compute_value js this
                    (s\<lparr>evaluations := evaluations s @ [ref (heap s ! this)]\<rparr>) of
               None \<Rightarrow> None
             | Some s1 \<Rightarrow>
                 if evaluatedValue (heap s1 ! this) \<noteq> evaluatedValue (heap s ! this)
                 then propagate js updatedCellDescendantObservers
                        (NotifyObservers this (observers (heap s1 ! this)))
                        (update_cell this (\<lambda>c. c\<lparr>modified := True\<rparr>) s1)
                 else Some s1)
      | NotifyObservers this refs \<Rightarrow>
          (case refs of
             [] \<Rightarrow> Some s
           | r # rest \<Rightarrow>
               (case findCell_defined s r of
                  None \<Rightarrow> None
                | Some observer \<Rightarrow>
                    (case nonEvaluated s
                            (setIntersect (subjects (heap s ! observer))
                               updatedCellDescendantObservers) of
                       None \<Rightarrow> None
                     | Some nonEvaluatedCommonCells \<Rightarrow>
                         if length nonEvaluatedCommonCells > 0
                         then propagate js updatedCellDescendantObservers
                                (NotifyObservers this rest) s
                         else
                           do {
                             s1 \<leftarrow> propagate js updatedCellDescendantObservers
                                     (EvaluateValue observer) s;
                             propagate js updatedCellDescendantObservers
                               (NotifyObservers this rest) s1
                           }))))"

declare propagate.simps [code]

definition evaluateValue :: "runtime \<Rightarrow> nat \<Rightarrow> string list \<Rightarrow> sheet \<Rightarrow> sheet option" where
  "evaluateValue js this updatedCellDescendantObservers s =
     propagate js updatedCellDescendantObservers (EvaluateValue this) s"

text \<open>
  The subjects of a new value, as \<open>setValue\<close> computes them. \<open>None\<close>: an
  exception escapes from \<open>expandRanges\<close>.
\<close>

definition newSubjects_of :: "jsval \<Rightarrow> string list option" where
  "newSubjects_of newValue =
     (case newValue of
        Str v \<Rightarrow>
          if isFormula_string v
          then (case expandRanges v of
                  None \<Rightarrow> None
                | Some expanded \<Rightarrow> Some (findRefsInFormula expanded))
          else Some []
      | _ \<Rightarrow> Some [])"

text \<open>The two \<open>forEach\<close> of \<open>setValue\<close> over the subjects added and removed.\<close>

fun registerAll :: "nat \<Rightarrow> string list \<Rightarrow> sheet \<Rightarrow> sheet option" where
  "registerAll this [] s = Some s"
| "registerAll this (r # refs) s =
     (case findOrCreateCell s r of
        None \<Rightarrow> None
      | Some (s1, c) \<Rightarrow> registerAll this refs (registerObserver c (ref (heap s1 ! this)) s1))"

fun unregisterAll :: "nat \<Rightarrow> string list \<Rightarrow> sheet \<Rightarrow> sheet option" where
  "unregisterAll this [] s = Some s"
| "unregisterAll this (r # refs) s =
     (case findOrCreateCell s r of
        None \<Rightarrow> None
      | Some (s1, c) \<Rightarrow> unregisterAll this refs (unregisterObserver c (ref (heap s1 ! this)) s1))"

text \<open>
  Lines 72 to 83 of \<open>setValue\<close>: the new subjects are stored and the observers
  of the subjects added and removed are brought in line.
\<close>

definition installSubjects :: "nat \<Rightarrow> string list \<Rightarrow> string list \<Rightarrow> sheet \<Rightarrow> sheet option" where
  "installSubjects this oldSubjects newSubjects s =
     (let s1 = update_cell this (\<lambda>c. c\<lparr>subjects := newSubjects\<rparr>) s;
          subjectsAdded = setDiff (subjects (heap s1 ! this)) oldSubjects;
          subjectsRemoved = setDiff oldSubjects (subjects (heap s1 ! this))
      in case registerAll this subjectsAdded s1 of
           None \<Rightarrow> None
         | Some s2 \<Rightarrow> unregisterAll this subjectsRemoved s2)"

text \<open>
  \<open>descendantObservers ??= this.descendantObservers()\<close>: the set the caller
  passed, or the one computed now.
\<close>

definition frontier :: "string list option \<Rightarrow> nat \<Rightarrow> sheet \<Rightarrow> string list option" where
  "frontier descendantObservers_arg this s =
     (case descendantObservers_arg of
        Some d \<Rightarrow> Some d
      | None \<Rightarrow> map_option fst (descendantObservers s this []))"

text \<open>\<open>Cell.setValue(newValue, descendantObservers)\<close> on the cell at address \<open>this\<close>.\<close>

definition setValue :: "runtime \<Rightarrow> nat \<Rightarrow> jsval \<Rightarrow> string list option \<Rightarrow> sheet \<Rightarrow> sheet option" where
  "setValue js this newValue descendantObservers_arg s =
     (if cell_value (heap s ! this) \<noteq> newValue
      then
        (let s1 = update_cell this
                    (\<lambda>c. c\<lparr>cell_value := newValue, modified := True, invalid := False,
                           errorMessage := Null\<rparr>) s;
             oldSubjects = subjects (heap s1 ! this)
         in case newSubjects_of newValue of
              None \<Rightarrow> None
            | Some newSubjects \<Rightarrow>
                (case hasCircularDependency this newSubjects s1 [] of
                   None \<Rightarrow> None
                 | Some (found, visited, s2) \<Rightarrow>
                     (let s3 = (if found
                                then update_cell this
                                       (\<lambda>c. c\<lparr>evaluatedValue := Null, invalid := True,
                                              errorMessage := Str ''Circular dependency''\<rparr>) s2
                                else s2)
                      in if \<not> invalid (heap s3 ! this)
                         then (case installSubjects this oldSubjects newSubjects s3 of
                                 None \<Rightarrow> None
                               | Some s4 \<Rightarrow>
                                   (case frontier descendantObservers_arg this s4 of
                                      None \<Rightarrow> None
                                    | Some d \<Rightarrow> evaluateValue js this d s4))
                         else Some s3)))
      else Some s)"

text \<open>
  \<open>new Cell(refOrCoords, value, sheet)\<close>: the new cell is not in \<open>cells\<close>
  while its constructor runs.
\<close>

definition newCell :: "runtime \<Rightarrow> string \<Rightarrow> jsval \<Rightarrow> sheet \<Rightarrow> (sheet \<times> nat) option" where
  "newCell js refOrCoords v s =
     (case asRef refOrCoords of
        None \<Rightarrow> None
      | Some r \<Rightarrow>
          (let (s1, a) = allocate r s
           in case setValue js a v None s1 of
                None \<Rightarrow> None
              | Some s2 \<Rightarrow> Some (s2, a)))"

text \<open>\<open>Sheet.updateOrCreateCell(refOrCoords, valueIfNew, descendantObservers)\<close>.\<close>

definition updateOrCreateCell ::
  "runtime \<Rightarrow> string \<Rightarrow> jsval \<Rightarrow> string list option \<Rightarrow> sheet \<Rightarrow> (sheet \<times> nat) option" where
  "updateOrCreateCell js refOrCoords valueIfNew descendantObservers_arg s =
     (case findCell s refOrCoords of
        None \<Rightarrow> None
      | Some (Some a) \<Rightarrow>
          (case setValue js a valueIfNew descendantObservers_arg s of
             None \<Rightarrow> None
           | Some s1 \<Rightarrow> Some (s1, a))
      | Some None \<Rightarrow>
          (case asRef refOrCoords of
             None \<Rightarrow> None
           | Some r \<Rightarrow>
               (case newCell js r valueIfNew s of
                  None \<Rightarrow> None
                | Some (s1, a) \<Rightarrow> Some (s1\<lparr>cells := assign_cells r a (cells s1)\<rparr>, a))))"

text \<open>\<open>Object.values(this.sheet.cells).forEach((cell) => (cell.evaluated = false))\<close>.\<close>

definition resetEvaluated :: "sheet \<Rightarrow> sheet" where
  "resetEvaluated s =
     foldl (\<lambda>acc (k, a). update_cell a (\<lambda>c. c\<lparr>evaluated := False\<rparr>) acc) s (cells s)"

text \<open>
  The translated references of \<open>copyTo\<close>, the object \<open>subjectNewRefs\<close>: one
  entry for each reference, in order.
\<close>

fun subjectNewRefs :: "string list \<Rightarrow> string \<Rightarrow> string \<Rightarrow> (string \<times> string) list option" where
  "subjectNewRefs [] source target = Some []"
| "subjectNewRefs (r # refs) source target =
     (case newRefForCopy r source target of
        None \<Rightarrow> None
      | Some n \<Rightarrow>
          (case subjectNewRefs refs source target of
             None \<Rightarrow> None
           | Some acc \<Rightarrow> Some ((r, n) # acc)))"

text \<open>The value \<open>copyTo\<close> writes into the target.\<close>

definition copiedValue :: "cell \<Rightarrow> string \<Rightarrow> jsval option" where
  "copiedValue c targetRef =
     (case cell_value c of
        Str v \<Rightarrow>
          if isFormula_string v
          then (case subjectNewRefs (findRefsInFormula v) (ref c) targetRef of
                  None \<Rightarrow> None
                | Some replacements \<Rightarrow> Some (Str (templateReplaceForCopy v replacements)))
          else Some (Str v)
      | v \<Rightarrow> Some v)"

text \<open>\<open>Cell.copyTo(targetRef)\<close> on the cell at address \<open>this\<close>.\<close>

definition copyTo :: "runtime \<Rightarrow> nat \<Rightarrow> string \<Rightarrow> sheet \<Rightarrow> (sheet \<times> nat) option" where
  "copyTo js this targetRef s =
     (case copiedValue (heap s ! this) targetRef of
        None \<Rightarrow> None
      | Some v \<Rightarrow> updateOrCreateCell js targetRef v None (resetEvaluated s))"

text \<open>
  The rewriting of the ranges of an observer in \<open>moveTo\<close>, the \<open>forEach\<close>
  over the ranges found in the value of the observer.
\<close>

fun moveRanges :: "string list \<Rightarrow> string list \<Rightarrow> string \<Rightarrow> string \<Rightarrow> string \<Rightarrow> string option" where
  "moveRanges [] sourceRefs source targetRef observerValue = Some observerValue"
| "moveRanges (rng # ranges) sourceRefs source targetRef observerValue =
     (case expandRange rng of
        None \<Rightarrow> None
      | Some rows \<Rightarrow>
          (let rangeCells = newSet (concat rows);
               rangeCellsNotInMove = setDiff rangeCells (newSet sourceRefs)
           in if length rangeCellsNotInMove = 0
              then (case firstMatch RANGE_REGEXP_groups [] rng of
                      None \<Rightarrow> None
                    | Some (fromRef, toRef) \<Rightarrow>
                        (case (newRefForCopy fromRef source targetRef,
                               newRefForCopy toRef source targetRef) of
                           (Some newFromRef, Some newToRef) \<Rightarrow>
                             moveRanges ranges sourceRefs source targetRef
                               (replaceAll (RegExp_word rng False)
                                  (newFromRef @ '':'' @ newToRef) [] observerValue)
                         | _ \<Rightarrow> None))
              else moveRanges ranges sourceRefs source targetRef observerValue))"

text \<open>The value \<open>moveTo\<close> writes into an observer whose value is a text.\<close>

definition movedObserverValue :: "string \<Rightarrow> string list \<Rightarrow> string \<Rightarrow> string \<Rightarrow> string option" where
  "movedObserverValue observerValue sourceRefs source targetRef =
     (case moveRanges (newSet (textScan observerValue RANGE_REGEXP)) sourceRefs source targetRef
             observerValue of
        None \<Rightarrow> None
      | Some v \<Rightarrow> Some (templateReplaceForMove v [(source, targetRef)]))"

text \<open>
  The \<open>forEach\<close> of \<open>moveTo\<close> over the observers of the moved cell. The only
  set of observers that \<open>setValue\<close> on an observer changes here is by taking that
  observer out, so the observers visited are those at the start of the loop.
  \<open>textScan\<close> throws on a value that is not a text.
\<close>

fun moveObservers :: "runtime \<Rightarrow> nat \<Rightarrow> string \<Rightarrow> string list \<Rightarrow> string list \<Rightarrow> sheet \<Rightarrow> sheet option" where
  "moveObservers js this targetRef sourceRefs [] s = Some s"
| "moveObservers js this targetRef sourceRefs (r # refs) s =
     (case findCell_defined s r of
        None \<Rightarrow> None
      | Some observer \<Rightarrow>
          (case cell_value (heap s ! observer) of
             Str observerValue \<Rightarrow>
               (case movedObserverValue observerValue sourceRefs (ref (heap s ! this)) targetRef of
                  None \<Rightarrow> None
                | Some v \<Rightarrow>
                    (case setValue js observer (Str v) None s of
                       None \<Rightarrow> None
                     | Some s1 \<Rightarrow>
                         moveObservers js this targetRef sourceRefs refs
                           (update_cell observer (\<lambda>c. c\<lparr>evaluated := False\<rparr>) s1)))
           | _ \<Rightarrow> None))"

text \<open>The first \<open>forEach\<close> of \<open>moveTo\<close>, over the observers of the target.\<close>

fun clearEvaluated :: "string list \<Rightarrow> sheet \<Rightarrow> sheet option" where
  "clearEvaluated [] s = Some s"
| "clearEvaluated (r # refs) s =
     (case findCell_defined s r of
        None \<Rightarrow> None
      | Some observer \<Rightarrow> clearEvaluated refs (update_cell observer (\<lambda>c. c\<lparr>evaluated := False\<rparr>) s))"

text \<open>\<open>Cell.moveTo(targetRef, sourceRefs)\<close> on the cell at address \<open>this\<close>.\<close>

definition moveTo :: "runtime \<Rightarrow> nat \<Rightarrow> string \<Rightarrow> string list \<Rightarrow> sheet \<Rightarrow> (sheet \<times> nat) option" where
  "moveTo js this targetRef sourceRefs s =
     (case findOrCreateCell s targetRef of
        None \<Rightarrow> None
      | Some (s1, target) \<Rightarrow>
          (case clearEvaluated (observers (heap s1 ! target)) s1 of
             None \<Rightarrow> None
           | Some s2 \<Rightarrow>
               (case updateOrCreateCell js targetRef (cell_value (heap s2 ! this)) None s2 of
                  None \<Rightarrow> None
                | Some (s3, targetCell) \<Rightarrow>
                    (case moveObservers js this targetRef sourceRefs (observers (heap s3 ! this)) s3 of
                       None \<Rightarrow> None
                     | Some s4 \<Rightarrow>
                         (case setValue js this Null None
                                 (update_cell this (\<lambda>c. c\<lparr>evaluated := False\<rparr>) s4) of
                            None \<Rightarrow> None
                          | Some s5 \<Rightarrow> Some (s5, targetCell))))))"

text \<open>
  \<open>Sheet.clone()\<close> with \<open>ENABLE_SELECTIVE_CLONING = false\<close>: every cell of
  \<open>cells\<close> is copied, with \<open>modified\<close> and \<open>evaluated\<close> false.
\<close>

definition clone :: "sheet \<Rightarrow> sheet" where
  "clone s =
     \<lparr>heap = map (\<lambda>(k, a). (heap s ! a)\<lparr>modified := False, evaluated := False\<rparr>) (cells s),
      cells = map (\<lambda>(i, (k, a)). (k, i)) (enumerate 0 (cells s)),
      evaluations = evaluations s\<rparr>"

text \<open>
  \<open>Sheet._loadInitialCellData\<close> and the constructor of \<open>Sheet\<close>, on the
  entries of \<open>initialCellData\<close> in order.
\<close>

fun loadInitialCellData :: "runtime \<Rightarrow> (string \<times> jsval) list \<Rightarrow> sheet \<Rightarrow> sheet option" where
  "loadInitialCellData js [] s = Some s"
| "loadInitialCellData js ((r, v) # entries) s =
     (case updateOrCreateCell js r v None s of
        None \<Rightarrow> None
      | Some (s1, a) \<Rightarrow> loadInitialCellData js entries (resetEvaluated s1))"

definition newSheet :: "runtime \<Rightarrow> (string \<times> jsval) list \<Rightarrow> sheet option" where
  "newSheet js initialCellData =
     loadInitialCellData js initialCellData \<lparr>heap = [], cells = [], evaluations = []\<rparr>"

text \<open>
  An instance of the runtime for the examples: \<open>eval\<close> on a text of digits, on
  the sum \<open>m+n\<close> and on the product \<open>m*n\<close> of two texts of digits; any other
  text throws here. No text that is a value is a number.
\<close>

definition eval_arith :: "string \<Rightarrow> jsval option" where
  "eval_arith t =
     (let m = takeWhile isDigit t; r = dropWhile isDigit t
      in if m = [] then None
         else (case r of
                 [] \<Rightarrow> Some (Num (Number_of_digits m))
               | c # n \<Rightarrow>
                   if n \<noteq> [] \<and> (\<forall>d \<in> set n. isDigit d) \<and> c = CHR ''+''
                   then Some (Num (Number_of_digits m + Number_of_digits n))
                   else if n \<noteq> [] \<and> (\<forall>d \<in> set n. isDigit d) \<and> c = CHR ''*''
                   then Some (Num (Number_of_digits m * Number_of_digits n))
                   else None))"

definition runtime_arith :: runtime where
  "runtime_arith = \<lparr>js_eval = eval_arith, Number_is_NaN = (\<lambda>t. True)\<rparr>"

text \<open>
  What a caller reads of a cell: the object that \<open>findCell\<close> returns, if any.
\<close>

definition cellAt :: "sheet \<Rightarrow> string \<Rightarrow> cell option" where
  "cellAt s r = (case findCell_defined s r of Some a \<Rightarrow> Some (heap s ! a) | None \<Rightarrow> None)"

text \<open>
  A write from the grid (\<open>handleCellInputBlur\<close>, after its test that the value
  changed): the sheet is cloned and the clone updated.
\<close>

definition writeCell :: "runtime \<Rightarrow> string \<Rightarrow> jsval \<Rightarrow> sheet \<Rightarrow> sheet option" where
  "writeCell js r newValue previousSheet =
     map_option fst (updateOrCreateCell js r newValue None (clone previousSheet))"

section \<open>Notions used to state the claims\<close>



text \<open>Every cell of \<open>cells\<close> is in the store.\<close>

definition cellsInStore :: "sheet \<Rightarrow> bool" where
  "cellsInStore s = (\<forall>k a. map_of (cells s) k = Some a \<longrightarrow> a < length (heap s))"


text \<open>
  \<open>s'\<close> is \<open>s\<close> with new, empty cells: the cells of \<open>s\<close> are as they were, and
  every reference that \<open>s'\<close> maps and \<open>s\<close> did not names a cell as its constructor
  leaves it.
\<close>

definition extends :: "sheet \<Rightarrow> sheet \<Rightarrow> bool" where
  "extends s s' =
     ((\<exists>news. heap s' = heap s @ news) \<and>
      evaluations s' = evaluations s \<and>
      (\<forall>k a. map_of (cells s) k = Some a \<longrightarrow> map_of (cells s') k = Some a) \<and>
      (\<forall>k a. map_of (cells s') k = Some a \<longrightarrow> map_of (cells s) k = None \<longrightarrow>
         length (heap s) \<le> a \<and> a < length (heap s') \<and> heap s' ! a = init_cell k))"

text \<open>
  The cycle check as \<open>setValue\<close> runs it for a new value that differs from the
  value of the cell: the cell already holds the new value, the check starts from
  the subjects of the new value with nothing visited. The result is what the check
  found, the references it visited and the sheet it leaves.
\<close>

definition cycleCheck :: "nat \<Rightarrow> jsval \<Rightarrow> sheet \<Rightarrow> (bool \<times> string list \<times> sheet) option" where
  "cycleCheck this newValue s =
     (case newSubjects_of newValue of
        None \<Rightarrow> None
      | Some newSubjects \<Rightarrow>
          hasCircularDependency this newSubjects
            (update_cell this
               (\<lambda>c. c\<lparr>cell_value := newValue, modified := True, invalid := False,
                      errorMessage := Null\<rparr>) s) [])"

text \<open>
  What the cycle check leaves, from the sheet \<open>s\<close> with \<open>visited\<close> to the sheet
  \<open>s'\<close> with \<open>visited'\<close>: new empty cells only, named by the references visited
  in between.
\<close>

definition hcd_post :: "string list \<Rightarrow> sheet \<Rightarrow> string list \<Rightarrow> sheet \<Rightarrow> bool" where
  "hcd_post visited s visited' s' =
     (extends s s' \<and> set visited \<subseteq> set visited' \<and>
      dom (map_of (cells s')) =
        dom (map_of (cells s)) \<union> {k. \<exists>r \<in> set visited' - set visited. asRef r = Some k})"



section \<open>Facts about the reference algebra\<close>

lemma AL[simp]: "ALPHABET_LENGTH = 26" by (simp add: ALPHABET_LENGTH_def)

lemma foldl_add_sum_list:
  "foldl (\<lambda>acc (i, c). acc + g i c) a xs = (a::int) + (\<Sum>(i, c) \<leftarrow> xs. g i c)"
  by (induction xs arbitrary: a) (auto split: prod.splits)

lemma colIndexFromLabel_sum:
  "colIndexFromLabel xs =
     (\<Sum>(i, letter) \<leftarrow> enumerate 0 xs. colIndexFromSingleLetter letter * 26 ^ (length xs - i - 1))"
  unfolding colIndexFromLabel_def by (simp add: foldl_add_sum_list)

lemma sum_enum_shift:
  "(\<Sum>(i, c) \<leftarrow> enumerate (Suc k) xs. f c * (26::int) ^ (n - i))
   = (\<Sum>(i, c) \<leftarrow> enumerate k xs. f c * 26 ^ (n - Suc i))"
  by (induction xs arbitrary: k) auto

lemma colIndexFromLabel_Cons:
  "colIndexFromLabel (c # cs) = colIndexFromSingleLetter c * 26 ^ length cs + colIndexFromLabel cs"
  by (simp add: colIndexFromLabel_sum sum_enum_shift)

lemma colIndexFromLabel_Nil: "colIndexFromLabel [] = 0"
  by (simp add: colIndexFromLabel_def)

lemma single_letter_inv:
  "1 \<le> k \<Longrightarrow> k \<le> 26 \<Longrightarrow> colIndexFromSingleLetter (colSingleLetter k) = k"
  by (simp add: colIndexFromSingleLetter_def colSingleLetter_def)

lemma loop_value:
  "-1 \<le> k \<Longrightarrow> colIndexFromLabel (colAsLabel_loop k acc) = (k + 1) * 26 ^ length acc + colIndexFromLabel acc"
proof (induction k acc rule: colAsLabel_loop.induct)
  case (1 k acc)
  show ?case
  proof (cases "k \<ge> 0")
    case True
    define q where "q = k div 26"
    define r where "r = k mod 26"
    have k: "k = 26 * q + r" and r: "0 \<le> r" "r < 26" and q: "0 \<le> q"
      using True by (simp_all add: q_def r_def)
    have "colIndexFromLabel (colAsLabel_loop k acc) =
          colIndexFromLabel (colAsLabel_loop (q - 1) (colSingleLetter (r + 1) # acc))"
      by (subst colAsLabel_loop.simps) (simp add: True q_def r_def)
    also have "\<dots> = q * 26 ^ (Suc (length acc)) + colIndexFromLabel (colSingleLetter (r + 1) # acc)"
      using "1.IH" True q by (simp add: q_def r_def)
    also have "\<dots> = (k + 1) * 26 ^ length acc + colIndexFromLabel acc"
      using r unfolding k by (simp add: colIndexFromLabel_Cons single_letter_inv algebra_simps)
    finally show ?thesis .
  next
    case False
    with "1.prems" have "k = -1" by simp
    then show ?thesis by (subst colAsLabel_loop.simps) simp
  qed
qed

lemma roundtrip: "1 \<le> n \<Longrightarrow> colIndexFromLabel (colAsLabel n) = n"
  by (simp add: colAsLabel_def loop_value colIndexFromLabel_Nil)

lemma isDigit_not_isLetter: "isDigit c \<Longrightarrow> \<not> isLetter c"
  by (auto simp: isDigit_def isLetter_def isUpper_def isLower_def)


lemma toUpperChar_not_lower: "\<not> isLower (toUpperChar c)"
  apply (auto simp: isLower_def toUpperChar_def)
  done

lemma toUpperChar_isLetter_iff: "isLetter (toUpperChar c) = isLetter c"
  by (auto simp: isLetter_def isUpper_def isLower_def toUpperChar_def)

lemma toUpperChar_isDigit_iff: "isDigit (toUpperChar c) = isDigit c"
  by (auto simp: isDigit_def isLower_def toUpperChar_def)

lemma toUpperChar_digit: "isDigit c \<Longrightarrow> toUpperChar c = c"
  by (auto simp: isDigit_def isLower_def toUpperChar_def)

lemma toUpperChar_idem: "toUpperChar (toUpperChar c) = toUpperChar c"
  using toUpperChar_not_lower[of c] by (simp add: toUpperChar_def[of "toUpperChar c"])

lemma toUpperCase_append: "toUpperCase (a @ b) = toUpperCase a @ toUpperCase b"
  by (simp add: toUpperCase_def)

lemma toUpperCase_digits: "\<forall>c \<in> set ds. isDigit c \<Longrightarrow> toUpperCase ds = ds"
  by (induction ds) (auto simp: toUpperCase_def toUpperChar_digit)

lemma lettersDigits_append:
  assumes "ls \<noteq> []" "\<forall>c \<in> set ls. isLetter c" "ds \<noteq> []" "\<forall>c \<in> set ds. isDigit c"
    and "rest = [] \<or> \<not> isDigit (hd rest)"
  shows "lettersDigits (ls @ ds @ rest) = Some (ls, ds, rest)"
proof -
  obtain d ds' where ds: "ds = d # ds'" using assms(3) by (cases ds) auto
  have nd: "\<not> isLetter d" using assms(4) ds isDigit_not_isLetter by auto
  have t1: "takeWhile isLetter (ls @ ds @ rest) = ls"
    using assms(2) nd by (simp add: ds takeWhile_tail)
  have d1: "dropWhile isLetter (ls @ ds @ rest) = ds @ rest"
    using assms(2) nd by (simp add: ds dropWhile_append3)
  have t2: "takeWhile isDigit (ds @ rest) = ds"
    using assms(4,5) by (cases rest) (auto simp: takeWhile_tail)
  have d2: "dropWhile isDigit (ds @ rest) = rest"
    using assms(4,5) by (cases rest) (auto simp: dropWhile_append3)
  show ?thesis
    unfolding lettersDigits_def Let_def t1 d1 t2 d2 using assms(1,3) by simp
qed

lemma isWordOpt_simps [simp]: "isWordOpt None = False" "isWordOpt (Some c) = isWordChar c"
  by (simp_all add: isWordOpt_def)

lemma lastChar_simps [simp]: "lastChar [] = None" "xs \<noteq> [] \<Longrightarrow> lastChar xs = Some (last xs)"
  by (simp_all add: lastChar_def)

lemma firstChar_simps [simp]: "firstChar [] = None" "firstChar (c # cs) = Some c"
  by (simp_all add: firstChar_def)

lemma asCoords_lettersDigits:
  assumes "ls \<noteq> []" "\<forall>c \<in> set ls. isLetter c" "ds \<noteq> []" "\<forall>c \<in> set ds. isDigit c"
  shows "asCoords (ls @ ds) =
         Some \<lparr>row = Number_of_digits ds, col = colIndexFromLabel (toUpperCase ls),
               labelCol = colAsLabel (colIndexFromLabel (toUpperCase ls))\<rparr>"
proof -
  have up: "toUpperCase (ls @ ds) = toUpperCase ls @ ds @ []"
    using assms(4) by (simp add: toUpperCase_append toUpperCase_digits)
  have "lettersDigits (toUpperCase ls @ ds @ []) = Some (toUpperCase ls, ds, [])"
    using assms by (intro lettersDigits_append) (auto simp: toUpperCase_def toUpperChar_isLetter_iff)
  then show ?thesis
    by (simp add: asCoords_def rowColFromRef_def REF_WITH_ANCHORS_REGEXP_def up)
qed






lemma set_newSet [simp]: "set (newSet xs) = set xs"
  by (induction xs) auto

lemma lettersDigits_shape:
  assumes "lettersDigits s = Some (ls, ds, r2)"
  shows "ls \<noteq> [] \<and> ds \<noteq> [] \<and> (\<forall>c \<in> set ls. isLetter c) \<and> (\<forall>c \<in> set ds. isDigit c) \<and> s = ls @ ds @ r2"
proof -
  from assms have ls: "ls = takeWhile isLetter s" and ds: "ds = takeWhile isDigit (dropWhile isLetter s)"
    and r2: "r2 = dropWhile isDigit (dropWhile isLetter s)" and ne: "ls \<noteq> []" "ds \<noteq> []"
    by (auto simp: lettersDigits_def Let_def split: if_splits)
  have "\<forall>c \<in> set ls. isLetter c" unfolding ls by (auto dest: set_takeWhileD)
  moreover have "\<forall>c \<in> set ds. isDigit c" unfolding ds by (auto dest: set_takeWhileD)
  moreover have "s = ls @ ds @ r2" unfolding ls ds r2 by simp
  ultimately show ?thesis using ne by simp
qed


lemma in_toUpperCase_letter: "c \<in> set (toUpperCase s) \<Longrightarrow> isLetter c \<Longrightarrow> isUpper c"
  using toUpperChar_not_lower by (auto simp: toUpperCase_def isLetter_def)



lemma int_of_char: "(of_char c :: int) = int (of_char c)"
  by (simp add: of_nat_of_char)

lemma colIndexFromLabel_snoc:
  "colIndexFromLabel (xs @ [c]) = 26 * colIndexFromLabel xs + colIndexFromSingleLetter c"
  by (induction xs) (simp_all add: colIndexFromLabel_Cons colIndexFromLabel_Nil algebra_simps)

lemma colIndexFromLabel_nonneg:
  "\<forall>c \<in> set xs. isUpper c \<Longrightarrow> 0 \<le> colIndexFromLabel xs"
proof (induction xs rule: rev_induct)
  case Nil then show ?case by (simp add: colIndexFromLabel_Nil)
next
  case (snoc c xs)
  then have "0 \<le> colIndexFromLabel xs" by simp
  moreover have "1 \<le> colIndexFromSingleLetter c"
    using snoc.prems by (simp add: colIndexFromSingleLetter_def isUpper_def int_of_char)
  ultimately show ?case by (simp add: colIndexFromLabel_snoc)
qed

lemma single_letter_inv2:
  "isUpper c \<Longrightarrow> colSingleLetter (colIndexFromSingleLetter c) = c"
  by (simp add: colIndexFromSingleLetter_def colSingleLetter_def)

lemma single_letter_range:
  "isUpper c \<Longrightarrow> 1 \<le> colIndexFromSingleLetter c \<and> colIndexFromSingleLetter c \<le> 26"
  by (simp add: colIndexFromSingleLetter_def isUpper_def int_of_char)

lemma loop_label:
  "\<forall>c \<in> set xs. isUpper c \<Longrightarrow> colAsLabel_loop (colIndexFromLabel xs - 1) acc = xs @ acc"
proof (induction xs arbitrary: acc rule: rev_induct)
  case Nil
  then show ?case by (subst colAsLabel_loop.simps) (simp add: colIndexFromLabel_Nil)
next
  case (snoc c xs)
  define m where "m = colIndexFromLabel xs"
  define i where "i = colIndexFromSingleLetter c"
  have m: "0 \<le> m" using snoc.prems colIndexFromLabel_nonneg by (simp add: m_def)
  have i: "1 \<le> i" "i \<le> 26" using snoc.prems single_letter_range by (simp_all add: i_def)
  have n: "colIndexFromLabel (xs @ [c]) - 1 = 26 * m + (i - 1)"
    by (simp add: colIndexFromLabel_snoc m_def i_def)
  have dv: "(26 * m + (i - 1)) div 26 = m" using i by simp
  have md: "(26 * m + (i - 1)) mod 26 = i - 1" using i by simp
  have md': "(i - 1) mod 26 = i - 1" using i by simp
  have ge: "0 \<le> 26 * m + (i - 1)" using m i by simp
  have "colAsLabel_loop (colIndexFromLabel (xs @ [c]) - 1) acc
        = colAsLabel_loop (m - 1) (colSingleLetter i # acc)"
    unfolding n by (subst colAsLabel_loop.simps) (simp add: ge dv md md')
  also have "\<dots> = xs @ colSingleLetter i # acc"
    using snoc.IH [of "colSingleLetter i # acc"] snoc.prems by (simp add: m_def)
  also have "colSingleLetter i = c" using snoc.prems by (simp add: i_def single_letter_inv2)
  finally show ?case by simp
qed

lemma colAsLabel_colIndexFromLabel:
  "\<forall>c \<in> set xs. isUpper c \<Longrightarrow> colAsLabel (colIndexFromLabel xs) = xs"
  by (simp add: colAsLabel_def loop_label)

lemma toUpperCase_upper: "\<forall>c \<in> set xs. isUpper c \<Longrightarrow> toUpperCase xs = xs"
  by (induction xs) (auto simp: toUpperCase_def toUpperChar_def isUpper_def isLower_def)

lemma asRef_label:
  assumes "ls \<noteq> []" "\<forall>c \<in> set ls. isUpper c" "ds \<noteq> []" "\<forall>c \<in> set ds. isDigit c"
  shows "asRef (ls @ ds) = Some (ls @ String_of_int (Number_of_digits ds))"
proof -
  have "\<forall>c \<in> set ls. isLetter c" using assms(2) by (simp add: isLetter_def)
  then show ?thesis
    using assms by (simp add: asRef_def asCoords_lettersDigits toUpperCase_upper colAsLabel_colIndexFromLabel)
qed

lemma Number_of_digits_snoc:
  "Number_of_digits (ds @ [d]) = Number_of_digits ds * 10 + (of_char d - 48)"
  by (simp add: Number_of_digits_def)

lemma digit_char: "n < 10 \<Longrightarrow> isDigit (char_of (48 + n)) \<and> (of_char (char_of (48 + n :: nat)) :: int) = 48 + int n"
  by (simp add: isDigit_def int_of_char)

lemma digits_of_nat_props:
  "digits_of_nat n \<noteq> [] \<and> (\<forall>c \<in> set (digits_of_nat n). isDigit c) \<and>
   Number_of_digits (digits_of_nat n) = int n"
proof (induction n rule: digits_of_nat.induct)
  case (1 n)
  show ?case
  proof (cases "n < 10")
    case True
    then show ?thesis
      using digit_char [of n]
      by (subst (1 2 3) digits_of_nat.simps) (simp add: Number_of_digits_def)
  next
    case False
    have m: "n mod 10 < 10" by simp
    from False 1 have IH: "digits_of_nat (n div 10) \<noteq> []"
      "\<forall>c \<in> set (digits_of_nat (n div 10)). isDigit c"
      "Number_of_digits (digits_of_nat (n div 10)) = int (n div 10)" by auto
    have e: "digits_of_nat n = digits_of_nat (n div 10) @ [char_of (48 + n mod 10)]"
      by (subst digits_of_nat.simps) (simp add: False)
    show ?thesis
      unfolding e using IH digit_char [OF m]
      by (simp add: Number_of_digits_snoc zdiv_int zmod_int)
  qed
qed

lemma Number_of_digits_nonneg: "\<forall>c \<in> set ds. isDigit c \<Longrightarrow> 0 \<le> Number_of_digits ds"
proof (induction ds rule: rev_induct)
  case Nil then show ?case by (simp add: Number_of_digits_def)
next
  case (snoc d ds)
  then have "0 \<le> Number_of_digits ds" by simp
  moreover have "0 \<le> (of_char d :: int) - 48" using snoc.prems by (simp add: isDigit_def int_of_char)
  ultimately show ?case by (simp add: Number_of_digits_snoc)
qed

lemma colSingleLetter_upper:
  assumes "1 \<le> j" "j \<le> 26"
  shows "isUpper (colSingleLetter j)"
proof -
  have "(of_char (colSingleLetter j) :: nat) = nat (of_char (colSingleLetter j) :: int)"
    by (simp only: nat_of_char)
  also have "\<dots> = nat (j + 64)"
    using assms by (simp add: colSingleLetter_def)
  finally have "(of_char (colSingleLetter j) :: nat) = nat (j + 64)" .
  moreover have "65 \<le> nat (j + 64)" "nat (j + 64) \<le> 90" using assms by linarith+
  ultimately show ?thesis by (simp add: isUpper_def)
qed

lemma colAsLabel_loop_upper:
  "\<forall>c \<in> set acc. isUpper c \<Longrightarrow> \<forall>c \<in> set (colAsLabel_loop k acc). isUpper c"
proof (induction k acc rule: colAsLabel_loop.induct)
  case (1 k acc)
  show ?case
  proof (cases "k \<ge> 0")
    case True
    have "isUpper (colSingleLetter (k mod 26 + 1))"
      by (rule colSingleLetter_upper) simp_all
    then have "\<forall>c \<in> set (colSingleLetter (k mod 26 + 1) # acc). isUpper c"
      using "1.prems" by simp
    then have "\<forall>c \<in> set (colAsLabel_loop (k div ALPHABET_LENGTH - 1) (colSingleLetter (k mod ALPHABET_LENGTH + 1) # acc)). isUpper c"
      using True by (intro "1.IH") simp_all
    moreover have "colAsLabel_loop k acc = colAsLabel_loop (k div ALPHABET_LENGTH - 1) (colSingleLetter (k mod ALPHABET_LENGTH + 1) # acc)"
      using True by (subst colAsLabel_loop.simps) (simp only: if_True)
    ultimately show ?thesis by (simp only:)
  next
    case False
    then have "colAsLabel_loop k acc = acc" by (subst colAsLabel_loop.simps) simp
    then show ?thesis using "1.prems" by simp
  qed
qed

lemma colAsLabel_loop_nonempty: "0 \<le> k \<or> acc \<noteq> [] \<Longrightarrow> colAsLabel_loop k acc \<noteq> []"
proof (induction k acc rule: colAsLabel_loop.induct)
  case (1 k acc)
  then show ?case by (subst colAsLabel_loop.simps) auto
qed

lemma colAsLabel_upper: "\<forall>c \<in> set (colAsLabel n). isUpper c"
  unfolding colAsLabel_def by (rule colAsLabel_loop_upper) simp

lemma colAsLabel_nonempty: "1 \<le> n \<Longrightarrow> colAsLabel n \<noteq> []"
  unfolding colAsLabel_def by (rule colAsLabel_loop_nonempty) simp

lemma asCoords_asRef_array:
  assumes "0 \<le> r" "1 \<le> c"
  shows "asCoords (asRef_array r c) = Some \<lparr>row = r, col = c, labelCol = colAsLabel c\<rparr>"
proof -
  have u: "\<forall>x \<in> set (colAsLabel c). isUpper x" by (rule colAsLabel_upper)
  then have l: "\<forall>x \<in> set (colAsLabel c). isLetter x" by (simp add: isLetter_def)
  show ?thesis
    using assms digits_of_nat_props [of "nat r"] l u
    by (simp add: asRef_array_def asCoords_array_def String_of_int_def asCoords_lettersDigits
        colAsLabel_nonempty toUpperCase_upper roundtrip)
qed

lemma asRef_asRef_array:
  assumes "0 \<le> r" "1 \<le> c"
  shows "asRef (asRef_array r c) = Some (asRef_array r c)"
  using asCoords_asRef_array [OF assms]
  by (simp add: asRef_def asRef_array_def asCoords_array_def)

lemma asRef_Some_shape:
  assumes "asRef x = Some k"
  shows "\<exists>ls ds. toUpperCase x = ls @ ds \<and> ls \<noteq> [] \<and> ds \<noteq> [] \<and> (\<forall>c \<in> set ls. isUpper c) \<and>
           (\<forall>c \<in> set ds. isDigit c) \<and> k = ls @ String_of_int (Number_of_digits ds)"
proof -
  from assms obtain ls ds r2 where ld: "lettersDigits (toUpperCase x) = Some (ls, ds, r2)" and r2: "r2 = []"
    and k: "k = colAsLabel (colIndexFromLabel ls) @ String_of_int (Number_of_digits ds)"
    by (auto simp: asRef_def asCoords_def rowColFromRef_def REF_WITH_ANCHORS_REGEXP_def
        split: option.splits if_splits)
  from lettersDigits_shape [OF ld] have sh: "ls \<noteq> []" "ds \<noteq> []" "\<forall>c \<in> set ls. isLetter c"
    "\<forall>c \<in> set ds. isDigit c" "toUpperCase x = ls @ ds" using r2 by auto
  have up: "\<forall>c \<in> set ls. isUpper c"
  proof
    fix c assume "c \<in> set ls"
    then have "isLetter c" "c \<in> set (toUpperCase x)" using sh by auto
    then show "isUpper c" by (simp add: in_toUpperCase_letter)
  qed
  then show ?thesis using sh k by (auto simp: colAsLabel_colIndexFromLabel)
qed

lemma asRef_idem:
  assumes "asRef x = Some k"
  shows "asRef k = Some k"
proof -
  from asRef_Some_shape [OF assms] obtain ls ds where
    sh: "ls \<noteq> []" "ds \<noteq> []" "\<forall>c \<in> set ls. isUpper c" "\<forall>c \<in> set ds. isDigit c"
    and k: "k = ls @ String_of_int (Number_of_digits ds)" by blast
  have nn: "0 \<le> Number_of_digits ds" using sh(4) by (rule Number_of_digits_nonneg)
  then have S: "String_of_int (Number_of_digits ds) = digits_of_nat (nat (Number_of_digits ds))"
    by (simp add: String_of_int_def)
  show ?thesis
    unfolding k S using digits_of_nat_props [of "nat (Number_of_digits ds)"] sh nn
    by (simp add: asRef_label String_of_int_def)
qed




section \<open>Facts about the cycle check\<close>


lemma heap_update_cell [simp]: "heap (update_cell a f s) = (heap s)[a := f (heap s ! a)]"
  and cells_update_cell [simp]: "cells (update_cell a f s) = cells s"
  and evaluations_update_cell [simp]: "evaluations (update_cell a f s) = evaluations s"
  by (simp_all add: update_cell_def)

lemma map_of_assign_cells [simp]: "map_of (assign_cells k a kvs) = (map_of kvs)(k \<mapsto> a)"
  by (induction kvs) (auto simp: fun_eq_iff)

lemma findOrCreateCell_cases:
  assumes "findOrCreateCell s r = Some (s1, a)"
  obtains (found) k where "asRef r = Some k" "map_of (cells s) k = Some a" "s1 = s"
  | (created) k where "asRef r = Some k" "map_of (cells s) k = None" "a = length (heap s)"
      "heap s1 = heap s @ [init_cell k]" "map_of (cells s1) = (map_of (cells s))(k \<mapsto> a)"
      "evaluations s1 = evaluations s"
  using assms
  by (auto simp: findOrCreateCell_def allocate_def split: option.splits)


lemma extends_refl [simp]: "extends s s"
  by (auto simp: extends_def)

lemma extends_trans:
  assumes "extends s s1" "extends s1 s2"
  shows "extends s s2"
proof -
  from assms obtain n1 n2 where h: "heap s1 = heap s @ n1" "heap s2 = heap s1 @ n2"
    by (auto simp: extends_def)
  have a: "\<And>k a. map_of (cells s) k = Some a \<Longrightarrow> map_of (cells s2) k = Some a"
    using assms by (auto simp: extends_def)
  have b: "length (heap s) \<le> a \<and> a < length (heap s2) \<and> heap s2 ! a = init_cell k"
    if "map_of (cells s2) k = Some a" "map_of (cells s) k = None" for k a
  proof (cases "map_of (cells s1) k")
    case None
    with that assms(2) have "length (heap s1) \<le> a \<and> a < length (heap s2) \<and> heap s2 ! a = init_cell k"
      by (auto simp: extends_def)
    then show ?thesis using h by auto
  next
    case (Some a')
    with assms(2) that have "a' = a" by (auto simp: extends_def)
    with Some that assms(1) have "length (heap s) \<le> a \<and> a < length (heap s1) \<and> heap s1 ! a = init_cell k"
      by (auto simp: extends_def)
    then show ?thesis using h by (auto simp: nth_append)
  qed
  show ?thesis
    unfolding extends_def using h a b assms by (auto simp: extends_def)
qed

lemma findOrCreateCell_extends:
  assumes "findOrCreateCell s r = Some (s1, a)"
  shows "extends s s1"
  using assms
proof (cases rule: findOrCreateCell_cases)
  case (found k)
  then show ?thesis by simp
next
  case (created k)
  then show ?thesis by (auto simp: extends_def split: if_splits)
qed

lemma findOrCreateCell_dom:
  assumes "findOrCreateCell s r = Some (s1, a)"
  shows "\<exists>k. asRef r = Some k \<and> map_of (cells s1) k = Some a \<and>
             dom (map_of (cells s1)) = insert k (dom (map_of (cells s)))"
  using assms
  by (cases rule: findOrCreateCell_cases) auto


lemma extends_heap_nth:
  "extends s s' \<Longrightarrow> a < length (heap s) \<Longrightarrow> heap s' ! a = heap s ! a"
  by (auto simp: extends_def nth_append)

lemma extends_length: "extends s s' \<Longrightarrow> length (heap s) \<le> length (heap s')"
  by (auto simp: extends_def)




lemma hcd_post_refl: "hcd_post visited s visited s"
  by (simp add: hcd_post_def)

lemma hcd_post_trans:
  assumes "hcd_post v0 s0 v1 s1" "hcd_post v1 s1 v2 s2"
  shows "hcd_post v0 s0 v2 s2"
proof -
  have e: "extends s0 s2" using assms extends_trans by (auto simp: hcd_post_def)
  have v: "set v0 \<subseteq> set v1" "set v1 \<subseteq> set v2" using assms by (auto simp: hcd_post_def)
  have d1: "dom (map_of (cells s1)) = dom (map_of (cells s0)) \<union> {k. \<exists>r \<in> set v1 - set v0. asRef r = Some k}"
    and d2: "dom (map_of (cells s2)) = dom (map_of (cells s1)) \<union> {k. \<exists>r \<in> set v2 - set v1. asRef r = Some k}"
    using assms by (auto simp: hcd_post_def)
  have "{k. \<exists>r \<in> set v1 - set v0. asRef r = Some k} \<union> {k. \<exists>r \<in> set v2 - set v1. asRef r = Some k}
        = {k. \<exists>r \<in> set v2 - set v0. asRef r = Some k}"
    using v by blast
  then have "dom (map_of (cells s2)) = dom (map_of (cells s0)) \<union> {k. \<exists>r \<in> set v2 - set v0. asRef r = Some k}"
    unfolding d2 d1 by (simp add: Un_assoc)
  with e v show ?thesis unfolding hcd_post_def by blast
qed

lemma hcd_post_visit:
  assumes f: "findOrCreateCell s r = Some (s1, a)" and nv: "r \<notin> set visited"
  shows "hcd_post visited s (visited @ [r]) s1"
proof -
  from findOrCreateCell_dom [OF f] obtain k where k: "asRef r = Some k"
    "dom (map_of (cells s1)) = insert k (dom (map_of (cells s)))" by blast
  have "{k. \<exists>x \<in> set (visited @ [r]) - set visited. asRef x = Some k} = {k}"
    using nv k(1) by auto
  then have "dom (map_of (cells s1)) =
     dom (map_of (cells s)) \<union> {k. \<exists>x \<in> set (visited @ [r]) - set visited. asRef x = Some k}"
    using k(2) by simp
  then show ?thesis
    unfolding hcd_post_def using findOrCreateCell_extends [OF f] by (simp add: subset_insertI)
qed

lemma hcd_some_post:
  assumes "hasCircularDependency_some this refs s visited = Some y"
  shows "hcd_post visited s (fst (snd y)) (snd (snd y))"
proof (rule hasCircularDependency_some.raw_induct
    [where P = "\<lambda>this refs s visited y. hcd_post visited s (fst (snd y)) (snd (snd y))", OF _ assms])
  fix f :: "nat \<Rightarrow> string list \<Rightarrow> sheet \<Rightarrow> string list \<Rightarrow> (bool \<times> string list \<times> sheet) option"
    and this refs s visited y
  assume IH: "\<And>this refs s visited y. f this refs s visited = Some y \<Longrightarrow>
                 hcd_post visited s (fst (snd y)) (snd (snd y))"
  assume eq: "(case refs of [] \<Rightarrow> Some (False, visited, s)
      | r # rest \<Rightarrow>
          if r \<in> set visited
          then f this rest s visited
          else case findOrCreateCell s r of None \<Rightarrow> None
               | Some (s1, subject) \<Rightarrow>
                   if ref (heap s1 ! this) \<in> set (subjects (heap s1 ! subject))
                   then Some (True, visited @ [r], s1)
                   else f this (subjects (heap s1 ! subject)) s1 (visited @ [r]) \<bind>
                        (\<lambda>(found, visited1, s2).
                            if found then Some (True, visited1, s2)
                            else f this rest s2 visited1)) = Some y"
  show "hcd_post visited s (fst (snd y)) (snd (snd y))"
  proof (cases refs)
    case Nil
    with eq show ?thesis by (auto simp: hcd_post_refl)
  next
    case (Cons r rest)
    show ?thesis
    proof (cases "r \<in> set visited")
      case True
      with eq Cons have "f this rest s visited = Some y" by simp
      then show ?thesis by (rule IH)
    next
      case False
      with eq Cons obtain s1 subject where fc: "findOrCreateCell s r = Some (s1, subject)"
        by (auto split: option.splits)
      note v = hcd_post_visit [OF fc False]
      show ?thesis
      proof (cases "ref (heap s1 ! this) \<in> set (subjects (heap s1 ! subject))")
        case True
        with eq Cons False fc have "y = (True, visited @ [r], s1)" by simp
        then show ?thesis using v by simp
      next
        case nf: False
        with eq Cons False fc obtain found visited1 s2 where
          inner: "f this (subjects (heap s1 ! subject)) s1 (visited @ [r]) = Some (found, visited1, s2)"
          and rest: "(if found then Some (True, visited1, s2) else f this rest s2 visited1) = Some y"
          by (auto simp: bind_eq_Some_conv)
        from IH [OF inner] have i: "hcd_post (visited @ [r]) s1 visited1 s2" by simp
        note vi = hcd_post_trans [OF v i]
        show ?thesis
        proof (cases found)
          case True
          with rest have "y = (True, visited1, s2)" by simp
          then show ?thesis using vi by simp
        next
          case False
          with rest have "f this rest s2 visited1 = Some y" by simp
          from IH [OF this] have "hcd_post visited1 s2 (fst (snd y)) (snd (snd y))" .
          with vi show ?thesis by (rule hcd_post_trans)
        qed
      qed
    qed
  qed
qed









lemma hasCircularDependency_post:
  assumes "hasCircularDependency this refs s visited = Some (b, visited', s')"
  shows "hcd_post visited s visited' s'"
proof (cases "ref (heap s ! this) \<in> set refs")
  case True
  with assms show ?thesis by (auto simp: hasCircularDependency_def hcd_post_refl)
next
  case False
  with assms have "hasCircularDependency_some this refs s visited = Some (b, visited', s')"
    by (simp add: hasCircularDependency_def)
  from hcd_some_post [OF this] show ?thesis by simp
qed

lemma nth_update_cell:
  "a < length (heap s) \<Longrightarrow> heap (update_cell a f s) ! b = (if b = a then f (heap s ! a) else heap s ! b)"
  by (simp add: update_cell_def nth_list_update)

lemma length_update_cell [simp]: "length (heap (update_cell a f s)) = length (heap s)"
  by (simp add: update_cell_def)

lemma cellsInStore_update_cell [simp]: "cellsInStore (update_cell a f s) = cellsInStore s"
  by (simp add: cellsInStore_def)




lemma setValue_changed:
  assumes "cell_value (heap s ! this) \<noteq> newValue"
  shows "setValue js this newValue d s =
     (case cycleCheck this newValue s of
        None \<Rightarrow> None
      | Some (found, visited, s2) \<Rightarrow>
          (let s3 = (if found
                     then update_cell this
                            (\<lambda>c. c\<lparr>evaluatedValue := Null, invalid := True,
                                   errorMessage := Str ''Circular dependency''\<rparr>) s2
                     else s2)
           in if \<not> invalid (heap s3 ! this)
              then (case installSubjects this (subjects (heap s ! this))
                           (the (newSubjects_of newValue)) s3 of
                      None \<Rightarrow> None
                    | Some s4 \<Rightarrow>
                        (case frontier d this s4 of
                           None \<Rightarrow> None
                         | Some f \<Rightarrow> evaluateValue js this f s4))
              else Some s3))"
proof -
  have "subjects (heap (update_cell this (\<lambda>c. c\<lparr>cell_value := newValue, modified := True, invalid := False,
                      errorMessage := Null\<rparr>) s) ! this) = subjects (heap s ! this)"
    by (cases "this < length (heap s)") (simp_all add: update_cell_def list_update_beyond)
  then show ?thesis
    using assms by (simp add: setValue_def cycleCheck_def Let_def split: option.splits)
qed

lemma setValue_rejected:
  assumes th: "this < length (heap s)" and ne: "cell_value (heap s ! this) \<noteq> newValue"
    and cc: "cycleCheck this newValue s = Some (True, visited, s2)"
  shows "setValue js this newValue d s =
           Some (update_cell this
                   (\<lambda>c. c\<lparr>evaluatedValue := Null, invalid := True,
                          errorMessage := Str ''Circular dependency''\<rparr>) s2)"
    and "hcd_post [] (update_cell this
               (\<lambda>c. c\<lparr>cell_value := newValue, modified := True, invalid := False,
                      errorMessage := Null\<rparr>) s) visited s2"
proof -
  let ?s1 = "update_cell this
               (\<lambda>c. c\<lparr>cell_value := newValue, modified := True, invalid := False,
                      errorMessage := Null\<rparr>) s"
  from cc obtain n where "hasCircularDependency this n ?s1 [] = Some (True, visited, s2)"
    by (auto simp: cycleCheck_def split: option.splits)
  from hasCircularDependency_post [OF this] show p: "hcd_post [] ?s1 visited s2" .
  then have "this < length (heap s2)"
    using th extends_length [of ?s1 s2] by (simp add: hcd_post_def)
  then show "setValue js this newValue d s =
           Some (update_cell this
                   (\<lambda>c. c\<lparr>evaluatedValue := Null, invalid := True,
                          errorMessage := Str ''Circular dependency''\<rparr>) s2)"
    by (simp add: setValue_changed [OF ne] cc nth_update_cell)
qed

lemma rejected_frame:
  assumes th: "this < length (heap s)" and ne: "cell_value (heap s ! this) \<noteq> newValue"
    and cc: "cycleCheck this newValue s = Some (True, visited, s2)"
  defines "s' \<equiv> update_cell this
                   (\<lambda>c. c\<lparr>evaluatedValue := Null, invalid := True,
                          errorMessage := Str ''Circular dependency''\<rparr>) s2"
  shows "setValue js this newValue d s = Some s'"
    and "heap s' ! this = (heap s ! this)\<lparr>cell_value := newValue, modified := True,
           evaluatedValue := Null, invalid := True, errorMessage := Str ''Circular dependency''\<rparr>"
    and "\<forall>a < length (heap s). a \<noteq> this \<longrightarrow> heap s' ! a = heap s ! a"
    and "\<forall>k a. map_of (cells s) k = Some a \<longrightarrow> map_of (cells s') k = Some a"
    and "\<forall>k a. map_of (cells s') k = Some a \<longrightarrow> map_of (cells s) k = None \<longrightarrow>
           length (heap s) \<le> a \<and> heap s' ! a = init_cell k"
    and "dom (map_of (cells s')) = dom (map_of (cells s)) \<union> {k. \<exists>r \<in> set visited. asRef r = Some k}"
    and "evaluations s' = evaluations s"
proof -
  let ?s1 = "update_cell this
               (\<lambda>c. c\<lparr>cell_value := newValue, modified := True, invalid := False,
                      errorMessage := Null\<rparr>) s"
  note rej = setValue_rejected [OF th ne cc]
  from rej(1) show "setValue js this newValue d s = Some s'" by (simp add: s'_def)
  from rej(2) have p: "hcd_post [] ?s1 visited s2" .
  from p have e: "extends ?s1 s2"
    and d: "dom (map_of (cells s2)) = dom (map_of (cells ?s1)) \<union> {k. \<exists>r \<in> set visited. asRef r = Some k}"
    by (simp_all add: hcd_post_def)
  have l1: "length (heap ?s1) = length (heap s)" by simp
  have th2: "this < length (heap s2)" using extends_length [OF e] th by simp
  have old: "heap s2 ! a = heap ?s1 ! a" if "a < length (heap s)" for a
    using extends_heap_nth [OF e] that by simp
  show "heap s' ! this = (heap s ! this)\<lparr>cell_value := newValue, modified := True,
           evaluatedValue := Null, invalid := True, errorMessage := Str ''Circular dependency''\<rparr>"
    using th th2 old [OF th] by (simp add: s'_def nth_update_cell)
  show "\<forall>a < length (heap s). a \<noteq> this \<longrightarrow> heap s' ! a = heap s ! a"
    using th th2 old by (simp add: s'_def nth_update_cell)
  show "\<forall>k a. map_of (cells s) k = Some a \<longrightarrow> map_of (cells s') k = Some a"
    using e by (simp add: s'_def extends_def)
  show "\<forall>k a. map_of (cells s') k = Some a \<longrightarrow> map_of (cells s) k = None \<longrightarrow>
           length (heap s) \<le> a \<and> heap s' ! a = init_cell k"
  proof (intro allI impI)
    fix k a assume m: "map_of (cells s') k = Some a" and n: "map_of (cells s) k = None"
    then have "length (heap ?s1) \<le> a \<and> a < length (heap s2) \<and> heap s2 ! a = init_cell k"
      using e by (simp add: s'_def extends_def)
    then show "length (heap s) \<le> a \<and> heap s' ! a = init_cell k"
      using th th2 by (simp add: s'_def nth_update_cell)
  qed
  show "dom (map_of (cells s')) = dom (map_of (cells s)) \<union> {k. \<exists>r \<in> set visited. asRef r = Some k}"
    using d by (simp add: s'_def)
  show "evaluations s' = evaluations s"
    using e by (simp add: s'_def extends_def)
qed



section \<open>Claims about the reference algebra\<close>








section \<open>The engine on concrete sheets\<close>

text \<open>
  C1 (edge symmetry after any sequence of writes) fails on the code. The formula
  \<open>=A1+A01\<close> in B1 names the cell A1 twice; B1 is registered once as observer of
  A1. Writing \<open>=A1\<close> into B1 removes the subject \<open>A01\<close>, which unregisters B1 from
  the cell A1: afterwards A1 is a subject of B1 and B1 is no observer of A1, and a
  later write of 5 into A1 leaves B1 at its old value.
\<close>

theorem edge_symmetry_broken_by_alias:
  "Option.bind (newSheet runtime_arith [(''B1'', Str ''=A1+A01'')])
     (\<lambda>s. Option.bind (writeCell runtime_arith ''B1'' (Str ''=A1'') s)
       (\<lambda>s1. map_option
          (\<lambda>s2. (map_option subjects (cellAt s1 ''B1''), map_option observers (cellAt s1 ''A1''),
                 map_option evaluatedValue (cellAt s2 ''A1''),
                 map_option evaluatedValue (cellAt s2 ''B1'')))
          (writeCell runtime_arith ''A1'' (Num 5) s1)))
   = Some (Some [''A1''], Some [], Some (Num 5), Some (Num 0))"
  by code_simp

text \<open>
  C3 (diamond-safe propagation) fails on the code. B1 and C1 read A1, D1 reads B1
  and C1, and C1 was written before B1, so A1 notifies C1 first. Writing 2 into A1
  changes C1 from 2 to 3; D1 is skipped because B1 is not yet evaluated; B1 is then
  evaluated to 0, as before, and notifies nobody. D1 is never evaluated in the
  pass and keeps the value 2, while its inputs are now 0 and 3.
\<close>

theorem diamond_D_not_evaluated:
  "Option.bind
     (newSheet runtime_arith
        [(''A1'', Num 1), (''C1'', Str ''=A1+1''), (''B1'', Str ''=A1*0''),
         (''D1'', Str ''=B1+C1'')])
     (\<lambda>s. map_option
        (\<lambda>s'. (map (\<lambda>r. map_option subjects (cellAt s r)) [''A1'', ''B1'', ''C1'', ''D1''],
               map (\<lambda>r. map_option evaluatedValue (cellAt s r)) [''A1'', ''B1'', ''C1'', ''D1''],
               map (\<lambda>r. map_option evaluatedValue (cellAt s' r)) [''A1'', ''B1'', ''C1'', ''D1''],
               evaluations s'))
        (writeCell runtime_arith ''A1'' (Num 2) (s\<lparr>evaluations := []\<rparr>)))
   = Some ([Some [], Some [''A1''], Some [''A1''], Some [''B1'', ''C1'']],
           [Some (Num 1), Some (Num 0), Some (Num 2), Some (Num 2)],
           [Some (Num 2), Some (Num 0), Some (Num 3), Some (Num 2)],
           [''A1'', ''C1'', ''B1''])"
  by code_simp

section \<open>Claims about the cycle check\<close>




text \<open>
  C9, as stated, fails: the check stops at the first reference that closes the
  cycle, and creates no cell for the references it did not visit. The formula
  \<open>=A1+Z9\<close> written into A1 names A1 itself; the write is rejected and no cell
  Z9 exists afterwards.
\<close>

theorem rejected_write_skips_references:
  "Option.bind (newSheet runtime_arith [(''A1'', Num 1)])
     (\<lambda>s. map_option
        (\<lambda>s'. (map fst (cells s'), map_option errorMessage (cellAt s' ''A1''),
               map_option cell_value (cellAt s' ''A1''), map_option cell_value (cellAt s' ''Z9'')))
        (writeCell runtime_arith ''A1'' (Str ''=A1+Z9'') s))
   = Some ([''A1''], Some (Str ''Circular dependency''), Some (Str ''=A1+Z9''), None)"
  by code_simp

text \<open>
  C9, amended. A \<open>setValue\<close> that the cycle check rejects still returns a changed
  sheet: the cell holds the rejected value, and the references that the sheet maps
  afterwards are those it mapped before and those the check visited before it
  found the cycle; each reference that is new names an empty cell, as the
  constructor leaves it; the cells that were there keep their address, the writing
  cell keeps its subjects and observers and every other cell is as before, so no
  edge is installed.
\<close>

theorem rejected_write_creates_visited_cells:
  assumes "this < length (heap s)" and "cell_value (heap s ! this) \<noteq> newValue"
    and "cycleCheck this newValue s = Some (True, visited, s2)"
  shows "\<exists>s'. setValue js this newValue d s = Some s' \<and>
           cell_value (heap s' ! this) = newValue \<and>
           invalid (heap s' ! this) \<and>
           errorMessage (heap s' ! this) = Str ''Circular dependency'' \<and>
           subjects (heap s' ! this) = subjects (heap s ! this) \<and>
           observers (heap s' ! this) = observers (heap s ! this) \<and>
           dom (map_of (cells s')) =
             dom (map_of (cells s)) \<union> {k. \<exists>r \<in> set visited. asRef r = Some k} \<and>
           (\<forall>k a. map_of (cells s) k = Some a \<longrightarrow> map_of (cells s') k = Some a) \<and>
           (\<forall>k a. map_of (cells s') k = Some a \<longrightarrow> map_of (cells s) k = None \<longrightarrow>
              heap s' ! a = init_cell k) \<and>
           (\<forall>a < length (heap s). a \<noteq> this \<longrightarrow> heap s' ! a = heap s ! a)"
proof -
  note f1 = rejected_frame(1) [OF assms, of js d]
  note f = rejected_frame [OF assms]
  show ?thesis
    apply (rule exI)
    apply (intro conjI)
             apply (rule f1)
            apply (subst f(2), simp)
           apply (subst f(2), simp)
          apply (subst f(2), simp)
         apply (subst f(2), simp)
        apply (subst f(2), simp)
       apply (rule f(6))
      apply (rule f(4))
    using f(5) apply blast
    apply (rule f(3))
    done
qed

theorem rejected_write_creates_visited_cells_witness:
  "\<exists>s'. setValue runtime_arith 0 (Str ''=Z9+B1+Y8'') None
           (clone (the (newSheet runtime_arith [(''A1'', Num 1), (''B1'', Str ''=A1'')]))) = Some s' \<and>
        cell_value (heap s' ! 0) = Str ''=Z9+B1+Y8'' \<and>
        dom (map_of (cells s')) = {''A1'', ''B1'', ''Z9''}"
proof -
  let ?s = "clone (the (newSheet runtime_arith [(''A1'', Num 1), (''B1'', Str ''=A1'')]))"
  have h1: "0 < length (heap ?s)" by code_simp
  have h2: "cell_value (heap ?s ! 0) \<noteq> Str ''=Z9+B1+Y8''" by code_simp
  have "map_option (\<lambda>(b, v, s). (b, v)) (cycleCheck 0 (Str ''=Z9+B1+Y8'') ?s) = Some (True, [''Z9'', ''B1''])"
    by code_simp
  then obtain s2 where h3: "cycleCheck 0 (Str ''=Z9+B1+Y8'') ?s = Some (True, [''Z9'', ''B1''], s2)"
    by auto
  have c: "cells ?s = [(''A1'', 0), (''B1'', 1)]" by code_simp
  have a: "asRef ''Z9'' = Some ''Z9''" "asRef ''B1'' = Some ''B1''" by code_simp+
  have d: "dom (map_of (cells ?s)) \<union> {k. \<exists>r \<in> set [''Z9'', ''B1'']. asRef r = Some k} = {''A1'', ''B1'', ''Z9''}"
    unfolding c using a by auto
  from rejected_write_creates_visited_cells [OF h1 h2 h3, of runtime_arith None]
  show ?thesis unfolding d by blast
qed

end
